theory Spec2Isabelle
  imports Main "HOL-Library.AList" "HOL-Library.Option_ord" "HOL-Library.List_Lexorder"
    "HOL-Library.Char_ord"
begin

section \<open>Data model of \<open>src/lib/chatService.ts\<close>\<close>

text \<open>
  A timestamp is an ISO string in the source, printed by the store from a
  column whose resolution is the microsecond: it is modelled by the instant it
  denotes, in microseconds since the epoch. The store orders and compares
  these instants exactly. A nullable column is an \<open>option\<close>. Field names
  carry a prefix because record fields are global constants.
\<close>

type_synonym timestamp = int

text \<open>
  The function itself never compares two timestamps: it compares the objects
  \<open>new Date(timestamp)\<close>. A \<open>Date\<close> holds a whole number of milliseconds, the
  digits of the string below the millisecond being dropped, and it is an
  Invalid Date, whose time value is \<open>NaN\<close>, when that number lies beyond
  8.64e15 milliseconds on either side of the epoch. \<open>a > b\<close> on two dates
  compares the time values, and is false as soon as one of them is \<open>NaN\<close>.
  Every string of the store that denotes an instant within that range is
  taken to be one that \<open>new Date\<close> parses.
\<close>

datatype date = Date int | Invalid_Date

definition new_Date :: "timestamp \<Rightarrow> date" where
  "new_Date t =
     (let ms = t div 1000
      in if - 8640000000000000 \<le> ms \<and> ms \<le> 8640000000000000 then Date ms else Invalid_Date)"

fun date_gt :: "date \<Rightarrow> date \<Rightarrow> bool" where
  "date_gt (Date a) (Date b) = (b < a)"
| "date_gt (Date a) Invalid_Date = False"
| "date_gt Invalid_Date b = False"

text \<open>A row of the \<open>conversations\<close> table, with the columns the query selects.\<close>

record conversation =
  c_id :: string
  c_analyst_id :: string
  c_creator_id :: string
  c_opportunity_id :: "string option"
  c_created_at :: timestamp
  c_last_message_at :: "timestamp option"
  c_custom_title :: "string option"
  c_tags :: "string list option"

text \<open>\<open>AnalystData\<close> and \<open>ProfileData\<close>.\<close>

record analyst_data =
  a_id :: string
  a_name :: string
  a_email :: string
  a_avatar_url :: "string option"

record profile_data =
  p_id :: string
  p_full_name :: string
  p_email :: string
  p_avatar_url :: "string option"

text \<open>
  A row of \<open>opportunity_applications\<close>: the columns of \<open>ApplicationData\<close> and
  the \<open>creator_id\<close> column the query filters on.
\<close>

record application_data =
  app_id :: string
  app_opportunity_id :: string
  app_creator_id :: string
  app_status :: string
  app_applied_at :: timestamp

text \<open>\<open>OpportunityData\<close>.\<close>

record opportunity_data =
  o_id :: string
  o_title :: string
  o_company :: string
  o_analyst_id :: string
  o_created_by :: string

text \<open>A row of the \<open>messages\<close> table, with the columns the two message queries touch.\<close>

record message =
  m_conversation_id :: string
  m_content :: string
  m_sender_type :: string
  m_sender_id :: string
  m_read :: bool
  m_created_at :: timestamp

text \<open>\<open>MessageData\<close>, a row returned by the \<open>get_latest_messages\<close> procedure.\<close>

record message_data =
  md_conversation_id :: string
  md_content :: string
  md_sender_type :: string
  md_created_at :: timestamp

text \<open>The value stored in \<open>analystsMap\<close>.\<close>

record analyst_info =
  ai_name :: string
  ai_email :: string
  ai_avatar_url :: "string option"

text \<open>
  The object stored per analyst in \<open>analystConversations\<close>. Its fields
  \<open>projects: []\<close> and \<open>unread_count: 0\<close> are written once and never read,
  and are left out.
\<close>

record unified_conversation =
  u_id :: string
  u_analyst_id :: string
  u_creator_id :: string
  u_created_at :: timestamp
  u_last_message_at :: "timestamp option"
  u_custom_title :: "string option"
  u_tags :: "string list option"

text \<open>An element of \<open>formattedProjects\<close>.\<close>

record project =
  pr_id :: string
  pr_opportunity_id :: string
  pr_title :: string
  pr_company :: string
  pr_status :: string
  pr_analyst_id :: string
  pr_created_by :: string

text \<open>
  \<open>ProjectChat\<close> and its nested objects. \<open>opportunity\<close>, \<open>analyst\<close> and
  \<open>conversation_id\<close> are nullable in the interface, but \<open>fetchCreatorChats\<close>
  always fills them, so they are modelled without \<open>option\<close>.
\<close>

record chat_opportunity =
  co_id :: string
  co_title :: string
  co_company :: string
  co_status :: string
  co_analyst_id :: string
  co_created_by :: string

record chat_analyst =
  ca_name :: string
  ca_company :: string
  ca_avatar_url :: "string option"

record last_message =
  lm_content :: string
  lm_sender_type :: string
  lm_created_at :: timestamp

record project_chat =
  pc_project_id :: string
  pc_opportunity_id :: string
  pc_opportunity :: chat_opportunity
  pc_analyst :: chat_analyst
  pc_conversation_id :: string
  pc_last_message_at :: "timestamp option"
  pc_lastMessage :: "last_message option"
  pc_unread_count :: nat
  pc_custom_title :: "string option"
  pc_tags :: "string list"

section \<open>The data store\<close>

text \<open>
  The store is an external collaborator. It is modelled by the contents of its
  tables and by the set of operations that currently fail with a transport or
  backend error. An answer of the client is \<open>{data, error}\<close>: \<open>data\<close> is
  \<open>null\<close> exactly when \<open>error\<close> is set.
\<close>

datatype store_op =
  Conversations | Analysts | Profiles | OpportunityApplications
  | Opportunities | Messages | GetLatestMessages

record store =
  t_conversations :: "conversation list"
  t_analysts :: "analyst_data list"
  t_profiles :: "profile_data list"
  t_opportunity_applications :: "application_data list"
  t_opportunities :: "opportunity_data list"
  t_messages :: "message list"
  unavailable :: "store_op \<Rightarrow> bool"

datatype 'a response = Success 'a | Failure

fun data_of :: "'a response \<Rightarrow> 'a option" where
  "data_of (Success rows) = Some rows"
| "data_of Failure = None"

fun error_of :: "'a response \<Rightarrow> bool" where
  "error_of (Success rows) = False"
| "error_of Failure = True"

text \<open>\<open>x || []\<close> on a nullable array.\<close>

fun or_empty :: "'a list option \<Rightarrow> 'a list" where
  "or_empty None = []"
| "or_empty (Some rows) = rows"

text \<open>
  \<open>.order('last_message_at', { ascending: false })\<close>: descending, and, as the
  client passes no null placement, with the database's default for a
  descending order, nulls first. The order among rows with equal keys is the
  store's; the model keeps them in table order (a stable insertion sort).
\<close>

fun desc_before :: "timestamp option \<Rightarrow> timestamp option \<Rightarrow> bool" where
  "desc_before None y = True"
| "desc_before (Some a) None = False"
| "desc_before (Some a) (Some b) = (b \<le> a)"

fun insert_desc :: "conversation \<Rightarrow> conversation list \<Rightarrow> conversation list" where
  "insert_desc c [] = [c]"
| "insert_desc c (d # ds) =
     (if desc_before (c_last_message_at c) (c_last_message_at d) then c # d # ds
      else d # insert_desc c ds)"

definition order_last_message_at_desc :: "conversation list \<Rightarrow> conversation list" where
  "order_last_message_at_desc rows = foldr insert_desc rows []"

definition select_conversations :: "store \<Rightarrow> string \<Rightarrow> conversation list response" where
  "select_conversations st userId =
     (if unavailable st Conversations then Failure
      else Success (order_last_message_at_desc
             (filter (\<lambda>c. c_creator_id c = userId) (t_conversations st))))"

definition select_analysts :: "store \<Rightarrow> string list \<Rightarrow> analyst_data list response" where
  "select_analysts st ids =
     (if unavailable st Analysts then Failure
      else Success (filter (\<lambda>a. a_id a \<in> set ids) (t_analysts st)))"

definition select_profiles :: "store \<Rightarrow> string list \<Rightarrow> profile_data list response" where
  "select_profiles st ids =
     (if unavailable st Profiles then Failure
      else Success (filter (\<lambda>p. p_id p \<in> set ids) (t_profiles st)))"

definition select_applications :: "store \<Rightarrow> string \<Rightarrow> application_data list response" where
  "select_applications st userId =
     (if unavailable st OpportunityApplications then Failure
      else Success (filter (\<lambda>app. app_creator_id app = userId \<and> app_status app = ''approved'')
             (t_opportunity_applications st)))"

definition select_opportunities :: "store \<Rightarrow> string list \<Rightarrow> opportunity_data list response" where
  "select_opportunities st ids =
     (if unavailable st Opportunities then Failure
      else Success (filter (\<lambda>op. o_id op \<in> set ids) (t_opportunities st)))"

text \<open>
  The unread query selects the single column \<open>conversation_id\<close>
  (\<open>UnreadMessageData\<close>), so its rows are modelled by that column's values.
\<close>

definition select_unread_messages :: "store \<Rightarrow> string list \<Rightarrow> string \<Rightarrow> string list response" where
  "select_unread_messages st ids userId =
     (if unavailable st Messages then Failure
      else Success (map m_conversation_id
             (filter (\<lambda>m. m_conversation_id m \<in> set ids \<and> \<not> m_read m \<and> m_sender_id m \<noteq> userId)
                (t_messages st))))"

text \<open>
  Modelled from the spec: the stored procedure \<open>get_latest_messages\<close> is
  called by \<open>fetchCreatorChats\<close> but its definition is not among the sources.
  The spec (Latest-Message Resolver) describes it as one bulk retrieval of the
  most recent message per thread id, a thread without messages having no row.
  Among messages of one thread with the same \<open>created_at\<close> the first in table
  order is taken.
\<close>

fun newest_message :: "message \<Rightarrow> message list \<Rightarrow> message" where
  "newest_message best [] = best"
| "newest_message best (m # ms) =
     newest_message (if m_created_at best < m_created_at m then m else best) ms"

definition to_message_data :: "message \<Rightarrow> message_data" where
  "to_message_data m =
     \<lparr> md_conversation_id = m_conversation_id m, md_content = m_content m,
       md_sender_type = m_sender_type m, md_created_at = m_created_at m \<rparr>"

definition latest_of_conversation :: "message list \<Rightarrow> string \<Rightarrow> message_data list" where
  "latest_of_conversation msgs cid =
     (case filter (\<lambda>m. m_conversation_id m = cid) msgs of
        [] \<Rightarrow> []
      | m # ms \<Rightarrow> [to_message_data (newest_message m ms)])"

text \<open>
  Modelled from the spec: \<open>get_latest_messages(conversation_ids)\<close>, the
  procedure itself, absent from the sources: one row per requested thread id
  that has a message, holding that thread's most recent message.
\<close>

definition rpc_get_latest_messages :: "store \<Rightarrow> string list \<Rightarrow> message_data list response" where
  "rpc_get_latest_messages st conversation_ids =
     (if unavailable st GetLatestMessages then Failure
      else Success (concat (map (latest_of_conversation (t_messages st)) (remdups conversation_ids))))"

section \<open>Step 2: grouping conversations by analyst\<close>

text \<open>
  A JavaScript \<open>Map\<close> that is iterated keeps its keys in insertion order and
  keeps a key's position when its value changes: an association list under
  \<open>AList.update\<close>. The \<open>Set\<close> \<open>allAnalystIds\<close> is a list without repetitions,
  in insertion order.
\<close>

record grouping =
  analystConversations :: "(string \<times> unified_conversation) list"
  allConversationsByAnalyst :: "(string \<times> string list) list"
  allAnalystIds :: "string list"

definition set_add :: "string \<Rightarrow> string list \<Rightarrow> string list" where
  "set_add x xs = (if x \<in> set xs then xs else xs @ [x])"

text \<open>
  Lines 117 to 119: \<open>existingDate\<close> and \<open>currentDate\<close> are \<open>null\<close> for a
  \<open>null\<close> column and the \<open>Date\<close> of the column otherwise, and the test is
  \<open>currentDate && (!existingDate || currentDate > existingDate)\<close>. A \<open>Date\<close>
  object is truthy, also an Invalid Date.
\<close>

fun more_recent :: "timestamp option \<Rightarrow> timestamp option \<Rightarrow> bool" where
  "more_recent None existing = False"
| "more_recent (Some cur) None = True"
| "more_recent (Some cur) (Some ex) = date_gt (new_Date cur) (new_Date ex)"

definition seed_conversation :: "conversation \<Rightarrow> unified_conversation" where
  "seed_conversation conv =
     \<lparr> u_id = c_id conv, u_analyst_id = c_analyst_id conv, u_creator_id = c_creator_id conv,
       u_created_at = c_created_at conv, u_last_message_at = c_last_message_at conv,
       u_custom_title = c_custom_title conv, u_tags = c_tags conv \<rparr>"

definition replace_canonical :: "unified_conversation \<Rightarrow> conversation \<Rightarrow> unified_conversation" where
  "replace_canonical existing conv =
     existing \<lparr> u_id := c_id conv, u_last_message_at := c_last_message_at conv,
                u_custom_title := c_custom_title conv, u_tags := c_tags conv \<rparr>"

text \<open>
  \<open>allConversationsByAnalyst.get(k).push(id)\<close>. The two maps always have the
  same keys (lemma \<open>grouping_keys\<close>), so the \<open>get\<close> never yields \<open>undefined\<close>.
\<close>

definition push_id :: "string \<Rightarrow> string \<Rightarrow> (string \<times> string list) list \<Rightarrow> (string \<times> string list) list" where
  "push_id k cid m = (case map_of m k of None \<Rightarrow> m | Some ids \<Rightarrow> AList.update k (ids @ [cid]) m)"

text \<open>The body of the loop of lines 98 to 129.\<close>

definition group_conv :: "grouping \<Rightarrow> conversation \<Rightarrow> grouping" where
  "group_conv s conv =
     (let k = c_analyst_id conv;
          ids = set_add k (allAnalystIds s);
          s1 = (case map_of (analystConversations s) k of
                  None \<Rightarrow>
                    s \<lparr> analystConversations := AList.update k (seed_conversation conv) (analystConversations s),
                        allConversationsByAnalyst := AList.update k [] (allConversationsByAnalyst s) \<rparr>
                | Some existing \<Rightarrow>
                    if more_recent (c_last_message_at conv) (u_last_message_at existing)
                    then s \<lparr> analystConversations :=
                               AList.update k (replace_canonical existing conv) (analystConversations s) \<rparr>
                    else s)
      in s1 \<lparr> allAnalystIds := ids,
              allConversationsByAnalyst := push_id k (c_id conv) (allConversationsByAnalyst s1) \<rparr>)"

definition empty_grouping :: grouping where
  "empty_grouping = \<lparr> analystConversations = [], allConversationsByAnalyst = [], allAnalystIds = [] \<rparr>"

definition groupConversations :: "conversation list \<Rightarrow> grouping" where
  "groupConversations conversationData = foldl group_conv empty_grouping conversationData"

section \<open>Step 3: batch fetches\<close>

text \<open>
  Maps that are only read with \<open>get\<close> are partial functions. \<open>x?.find(p)\<close> on
  a nullable array is \<open>undefined\<close> when the array is \<open>null\<close>.
\<close>

definition find_opt :: "('a \<Rightarrow> bool) \<Rightarrow> 'a list option \<Rightarrow> 'a option" where
  "find_opt p rows = (case rows of None \<Rightarrow> None | Some xs \<Rightarrow> List.find p xs)"

definition sentinel_analyst :: analyst_info where
  "sentinel_analyst = \<lparr> ai_name = ''Analista'', ai_email = [], ai_avatar_url = None \<rparr>"

text \<open>The callback of \<open>analystIdsArray.forEach\<close>, lines 150 to 162.\<close>

definition resolve_analyst ::
  "analyst_data list option \<Rightarrow> profile_data list option \<Rightarrow> string \<Rightarrow> analyst_info" where
  "resolve_analyst analysts profiles aid =
     (case find_opt (\<lambda>a. a_id a = aid) analysts of
        Some analyst \<Rightarrow>
          \<lparr> ai_name = a_name analyst, ai_email = a_email analyst, ai_avatar_url = a_avatar_url analyst \<rparr>
      | None \<Rightarrow>
          (case find_opt (\<lambda>p. p_id p = aid) profiles of
             Some profile \<Rightarrow>
               \<lparr> ai_name = p_full_name profile, ai_email = p_email profile,
                 ai_avatar_url = p_avatar_url profile \<rparr>
           | None \<Rightarrow> sentinel_analyst))"

definition build_analystsMap ::
  "analyst_data list option \<Rightarrow> profile_data list option \<Rightarrow> string list \<Rightarrow> (string \<rightharpoonup> analyst_info)" where
  "build_analystsMap analysts profiles analystIdsArray =
     foldl (\<lambda>m aid. m(aid \<mapsto> resolve_analyst analysts profiles aid)) Map.empty analystIdsArray"

definition build_opportunitiesMap :: "opportunity_data list option \<Rightarrow> (string \<rightharpoonup> opportunity_data)" where
  "build_opportunitiesMap opportunities =
     foldl (\<lambda>m op. m(o_id op \<mapsto> op)) Map.empty (or_empty opportunities)"

text \<open>\<open>unreadCountsMap.get(id) || 0\<close>.\<close>

definition count_or_zero :: "(string \<rightharpoonup> nat) \<Rightarrow> string \<Rightarrow> nat" where
  "count_or_zero m cid = (case m cid of None \<Rightarrow> 0 | Some n \<Rightarrow> n)"

definition build_unreadCountsMap :: "string list option \<Rightarrow> (string \<rightharpoonup> nat)" where
  "build_unreadCountsMap unreadMessages =
     foldl (\<lambda>m cid. m(cid \<mapsto> count_or_zero m cid + 1)) Map.empty (or_empty unreadMessages)"

text \<open>
  Lines 221 to 229: the rows are stored when the call has no error; on an
  error the map stays empty and the function goes on. What the function
  writes to the console is not part of the model.
\<close>

definition build_latestMessagesMap :: "message_data list response \<Rightarrow> (string \<rightharpoonup> message_data)" where
  "build_latestMessagesMap resp =
     (case resp of
        Success latestMessages \<Rightarrow>
          foldl (\<lambda>m msg. m(md_conversation_id msg \<mapsto> msg)) Map.empty latestMessages
      | Failure \<Rightarrow> Map.empty)"

section \<open>Step 4: processing per analyst\<close>

text \<open>The callback of \<open>applications.map\<close>, lines 239 to 255, before \<open>filter(Boolean)\<close>.\<close>

definition format_project ::
  "(string \<rightharpoonup> opportunity_data) \<Rightarrow> unified_conversation \<Rightarrow> application_data \<Rightarrow> project option" where
  "format_project opportunitiesMap conv app =
     (case opportunitiesMap (app_opportunity_id app) of
        None \<Rightarrow> None
      | Some opportunity \<Rightarrow>
          if o_analyst_id opportunity = u_analyst_id conv
          then Some \<lparr> pr_id = app_id app, pr_opportunity_id = app_opportunity_id app,
                      pr_title = o_title opportunity, pr_company = o_company opportunity,
                      pr_status = ''active'', pr_analyst_id = o_analyst_id opportunity,
                      pr_created_by = o_analyst_id opportunity \<rparr>
          else None)"

definition formattedProjects ::
  "application_data list option \<Rightarrow> (string \<rightharpoonup> opportunity_data) \<Rightarrow> unified_conversation \<Rightarrow> project list" where
  "formattedProjects applications opportunitiesMap conv =
     List.map_filter (format_project opportunitiesMap conv) (or_empty applications)"

text \<open>
  The loop of lines 264 to 277, on the pair (\<open>lastMessage\<close>, \<open>lastMessageDate\<close>).
  A \<open>Date\<close> object is truthy, so \<open>!lastMessageDate\<close> holds only for \<open>null\<close>.
\<close>

definition last_message_step ::
  "(string \<rightharpoonup> message_data) \<Rightarrow> last_message option \<times> date option \<Rightarrow> string
     \<Rightarrow> last_message option \<times> date option" where
  "last_message_step latestMessagesMap acc convId =
     (case latestMessagesMap convId of
        None \<Rightarrow> acc
      | Some msg \<Rightarrow>
          (let msgDate = new_Date (md_created_at msg) in
           if (case snd acc of None \<Rightarrow> True | Some lastMessageDate \<Rightarrow> date_gt msgDate lastMessageDate)
           then (Some \<lparr> lm_content = md_content msg, lm_sender_type = md_sender_type msg,
                        lm_created_at = md_created_at msg \<rparr>, Some msgDate)
           else acc))"

definition find_lastMessage :: "(string \<rightharpoonup> message_data) \<Rightarrow> string list \<Rightarrow> last_message option" where
  "find_lastMessage latestMessagesMap conversationIds =
     fst (foldl (last_message_step latestMessagesMap) (None, None) conversationIds)"

definition count_unread :: "(string \<rightharpoonup> nat) \<Rightarrow> string list \<Rightarrow> nat" where
  "count_unread unreadCountsMap conversationIds =
     foldl (\<lambda>unreadCount cid. unreadCount + count_or_zero unreadCountsMap cid) 0 conversationIds"

text \<open>\<open>conv.custom_title || null\<close>: the empty string is falsy.\<close>

fun title_or_null :: "string option \<Rightarrow> string option" where
  "title_or_null None = None"
| "title_or_null (Some t) = (if t = [] then None else Some t)"

text \<open>The callback of \<open>formattedProjects.map\<close>, lines 286 to 312.\<close>

definition to_project_chat ::
  "analyst_info \<Rightarrow> unified_conversation \<Rightarrow> last_message option \<Rightarrow> nat \<Rightarrow> project \<Rightarrow> project_chat" where
  "to_project_chat analystInfo conv lastMessage unreadCount p =
     \<lparr> pc_project_id = pr_id p,
       pc_opportunity_id = pr_opportunity_id p,
       pc_opportunity =
         \<lparr> co_id = pr_opportunity_id p, co_title = pr_title p, co_company = pr_company p,
           co_status = ''active'', co_analyst_id = pr_analyst_id p, co_created_by = pr_created_by p \<rparr>,
       pc_analyst =
         \<lparr> ca_name = ai_name analystInfo, ca_company = pr_company p,
           ca_avatar_url = ai_avatar_url analystInfo \<rparr>,
       pc_conversation_id = u_id conv,
       pc_last_message_at = u_last_message_at conv,
       pc_lastMessage = lastMessage,
       pc_unread_count = unreadCount,
       pc_custom_title = title_or_null (u_custom_title conv),
       pc_tags = or_empty (u_tags conv) \<rparr>"

text \<open>
  The callback given to \<open>Promise.all\<close>, lines 234 to 313: the chats of one
  analyst's unified conversation.
\<close>

definition unifiedConversation ::
  "(string \<rightharpoonup> analyst_info) \<Rightarrow> application_data list option \<Rightarrow> (string \<rightharpoonup> opportunity_data)
     \<Rightarrow> (string \<times> string list) list \<Rightarrow> (string \<rightharpoonup> message_data) \<Rightarrow> (string \<rightharpoonup> nat)
     \<Rightarrow> unified_conversation \<Rightarrow> project_chat list" where
  "unifiedConversation analystsMap applications opportunitiesMap allConvsByAnalyst
       latestMessagesMap unreadCountsMap conv =
     (let analystInfo = (case analystsMap (u_analyst_id conv) of
                           None \<Rightarrow> sentinel_analyst | Some info \<Rightarrow> info);
          projects = formattedProjects applications opportunitiesMap conv;
          conversationIds = (case map_of allConvsByAnalyst (u_analyst_id conv) of
                               None \<Rightarrow> [] | Some ids \<Rightarrow> ids);
          lastMessage = find_lastMessage latestMessagesMap conversationIds;
          unreadCount = count_unread unreadCountsMap conversationIds
      in map (to_project_chat analystInfo conv lastMessage unreadCount) projects)"

section \<open>\<open>fetchCreatorChats\<close>\<close>

text \<open>
  Every \<open>await\<close> on the store is one bulk operation; the function is modelled
  together with the list of the operations it has issued, each with the
  arguments of its filter.
\<close>

datatype store_call =
  SelectConversations string
  | SelectAnalysts "string list"
  | SelectProfiles "string list"
  | SelectApplications string
  | SelectOpportunities "string list"
  | SelectUnreadMessages "string list" string
  | RpcGetLatestMessages "string list"

definition fetchCreatorChats_traced :: "store \<Rightarrow> string \<Rightarrow> store_call list \<times> project_chat list" where
  "fetchCreatorChats_traced st userId =
     (let convResp = select_conversations st userId;
          calls1 = [SelectConversations userId]
      in if error_of convResp then (calls1, [])
         else
          (let grp = groupConversations (or_empty (data_of convResp));
               analystIdsArray = allAnalystIds grp;
               (calls2, analystsMap) =
                 (if analystIdsArray \<noteq> []
                  then (calls1 @ [SelectAnalysts analystIdsArray, SelectProfiles analystIdsArray],
                        build_analystsMap (data_of (select_analysts st analystIdsArray))
                          (data_of (select_profiles st analystIdsArray)) analystIdsArray)
                  else (calls1, Map.empty));
               applications = data_of (select_applications st userId);
               calls3 = calls2 @ [SelectApplications userId];
               opportunityIds = map app_opportunity_id (or_empty applications);
               (calls4, opportunitiesMap) =
                 (if opportunityIds \<noteq> []
                  then (calls3 @ [SelectOpportunities opportunityIds],
                        build_opportunitiesMap (data_of (select_opportunities st opportunityIds)))
                  else (calls3, Map.empty));
               allConvIds = concat (map snd (allConversationsByAnalyst grp));
               (calls5, unreadCountsMap) =
                 (if allConvIds \<noteq> []
                  then (calls4 @ [SelectUnreadMessages allConvIds userId],
                        build_unreadCountsMap (data_of (select_unread_messages st allConvIds userId)))
                  else (calls4, Map.empty));
               allConversationIds = concat (map snd (allConversationsByAnalyst grp));
               (calls6, latestMessagesMap) =
                 (if allConversationIds \<noteq> []
                  then (calls5 @ [RpcGetLatestMessages allConversationIds],
                        build_latestMessagesMap (rpc_get_latest_messages st allConversationIds))
                  else (calls5, Map.empty));
               unifiedConversations =
                 map (unifiedConversation analystsMap applications opportunitiesMap
                        (allConversationsByAnalyst grp) latestMessagesMap unreadCountsMap)
                   (map snd (analystConversations grp))
           in (calls6, concat unifiedConversations)))"

definition fetchCreatorChats :: "store \<Rightarrow> string \<Rightarrow> project_chat list" where
  "fetchCreatorChats st userId = snd (fetchCreatorChats_traced st userId)"

definition store_calls :: "store \<Rightarrow> string \<Rightarrow> store_call list" where
  "store_calls st userId = fst (fetchCreatorChats_traced st userId)"

section \<open>Notions used in the statements\<close>

text \<open>
  The values of the local variables of one run of \<open>fetchCreatorChats\<close>, named
  after them, as functions of the store and the actor.
\<close>

definition conversationData :: "store \<Rightarrow> string \<Rightarrow> conversation list" where
  "conversationData st userId = or_empty (data_of (select_conversations st userId))"

definition groups :: "store \<Rightarrow> string \<Rightarrow> grouping" where
  "groups st userId = groupConversations (conversationData st userId)"

definition analystsMap_of :: "store \<Rightarrow> string \<Rightarrow> (string \<rightharpoonup> analyst_info)" where
  "analystsMap_of st userId =
     (let analystIdsArray = allAnalystIds (groups st userId)
      in if analystIdsArray \<noteq> []
         then build_analystsMap (data_of (select_analysts st analystIdsArray))
                (data_of (select_profiles st analystIdsArray)) analystIdsArray
         else Map.empty)"

definition applications_of :: "store \<Rightarrow> string \<Rightarrow> application_data list option" where
  "applications_of st userId = data_of (select_applications st userId)"

definition opportunitiesMap_of :: "store \<Rightarrow> string \<Rightarrow> (string \<rightharpoonup> opportunity_data)" where
  "opportunitiesMap_of st userId =
     (let opportunityIds = map app_opportunity_id (or_empty (applications_of st userId))
      in if opportunityIds \<noteq> []
         then build_opportunitiesMap (data_of (select_opportunities st opportunityIds))
         else Map.empty)"

definition allConvIds_of :: "store \<Rightarrow> string \<Rightarrow> string list" where
  "allConvIds_of st userId = concat (map snd (allConversationsByAnalyst (groups st userId)))"

definition unreadCountsMap_of :: "store \<Rightarrow> string \<Rightarrow> (string \<rightharpoonup> nat)" where
  "unreadCountsMap_of st userId =
     (let allConvIds = allConvIds_of st userId
      in if allConvIds \<noteq> []
         then build_unreadCountsMap (data_of (select_unread_messages st allConvIds userId))
         else Map.empty)"

definition latestMessagesMap_of :: "store \<Rightarrow> string \<Rightarrow> (string \<rightharpoonup> message_data)" where
  "latestMessagesMap_of st userId =
     (let allConversationIds = allConvIds_of st userId
      in if allConversationIds \<noteq> []
         then build_latestMessagesMap (rpc_get_latest_messages st allConversationIds)
         else Map.empty)"

text \<open>
  The chats emitted for one unified conversation (one counterpart group);
  \<open>fetchCreatorChats\<close> is their concatenation over the groups (lemma
  \<open>fetchCreatorChats_concat\<close>).
\<close>

definition chats_of_group :: "store \<Rightarrow> string \<Rightarrow> unified_conversation \<Rightarrow> project_chat list" where
  "chats_of_group st userId conv =
     unifiedConversation (analystsMap_of st userId) (applications_of st userId)
       (opportunitiesMap_of st userId) (allConversationsByAnalyst (groups st userId))
       (latestMessagesMap_of st userId) (unreadCountsMap_of st userId) conv"

text \<open>
  The raw conversations of analyst \<open>k\<close> among \<open>convs\<close>, in the order of \<open>convs\<close>.
  A chat names its group by \<open>opportunity.analyst_id\<close>, which the code only
  emits when it equals the group's \<open>analyst_id\<close>.
\<close>

definition group_of :: "string \<Rightarrow> conversation list \<Rightarrow> conversation list" where
  "group_of k convs = filter (\<lambda>c. c_analyst_id c = k) convs"

text \<open>
  The rows are in the order of the conversations query: descending
  \<open>last_message_at\<close>, nulls first.
\<close>

definition desc_ordered :: "conversation list \<Rightarrow> bool" where
  "desc_ordered convs =
     sorted_wrt (\<lambda>a b. desc_before (c_last_message_at a) (c_last_message_at b)) convs"

text \<open>
  \<open>u\<close> carries the metadata of the first conversation of \<open>g\<close> whose
  \<open>last_message_at\<close> is maximal, \<open>null\<close> counting as older than every date
  (the order of \<open>Option_ord\<close>).
\<close>

definition is_canonical :: "conversation list \<Rightarrow> unified_conversation \<Rightarrow> bool" where
  "is_canonical g u \<longleftrightarrow>
     (\<exists>pre c post. g = pre @ c # post
        \<and> (\<forall>x\<in>set pre. c_last_message_at x < c_last_message_at c)
        \<and> (\<forall>x\<in>set post. c_last_message_at x \<le> c_last_message_at c)
        \<and> u_id u = c_id c \<and> u_last_message_at u = c_last_message_at c
        \<and> u_custom_title u = c_custom_title c \<and> u_tags u = c_tags c)"

text \<open>
  The list of ids an operation is filtered by (\<open>.in(column, ids)\<close>, or the
  \<open>conversation_ids\<close> parameter of the procedure). The request itself brings
  only \<open>userId\<close>, so such a list is made of ids read from the rows that an
  earlier operation of the same request returned.
\<close>

fun ids_argument :: "store_call \<Rightarrow> string list option" where
  "ids_argument (SelectConversations userId) = None"
| "ids_argument (SelectAnalysts ids) = Some ids"
| "ids_argument (SelectProfiles ids) = Some ids"
| "ids_argument (SelectApplications userId) = None"
| "ids_argument (SelectOpportunities ids) = Some ids"
| "ids_argument (SelectUnreadMessages ids userId) = Some ids"
| "ids_argument (RpcGetLatestMessages ids) = Some ids"

definition uses_fetched_ids :: "store_call \<Rightarrow> bool" where
  "uses_fetched_ids call = (ids_argument call \<noteq> None)"

text \<open>
  The same store, with operation \<open>op\<close> answering.
\<close>

definition recover :: "store_op \<Rightarrow> store \<Rightarrow> store" where
  "recover op st = st \<lparr> unavailable := (unavailable st)(op := False) \<rparr>"


definition md_last_message :: "message_data \<Rightarrow> last_message" where
  "md_last_message msg =
     \<lparr> lm_content = md_content msg, lm_sender_type = md_sender_type msg,
       lm_created_at = md_created_at msg \<rparr>"


definition rows_valid :: "(string \<rightharpoonup> message_data) \<Rightarrow> string list \<Rightarrow> bool" where
  "rows_valid lm ids \<longleftrightarrow>
     (\<forall>cid\<in>set ids. \<forall>msg. lm cid = Some msg \<longrightarrow> new_Date (md_created_at msg) \<noteq> Invalid_Date)"

definition last_message_inv ::
  "(string \<rightharpoonup> message_data) \<Rightarrow> string list \<Rightarrow> last_message option \<times> date option \<Rightarrow> bool" where
  "last_message_inv lm ids acc \<longleftrightarrow>
     snd acc = map_option (\<lambda>l. new_Date (lm_created_at l)) (fst acc)
     \<and> (fst acc = None \<longleftrightarrow> (\<forall>cid\<in>set ids. lm cid = None))
     \<and> (\<forall>l. fst acc = Some l \<longrightarrow>
           (\<exists>cid\<in>set ids. \<exists>msg. lm cid = Some msg \<and> l = md_last_message msg)
           \<and> (rows_valid lm ids \<longrightarrow>
                (\<forall>cid\<in>set ids. \<forall>msg. lm cid = Some msg
                   \<longrightarrow> md_created_at msg div 1000 \<le> lm_created_at l div 1000)))"

section \<open>The tie-break as the spec words it\<close>

text \<open>
  The spec's choice of the canonical thread of a group: the thread with the
  most recent \<open>last_activity_at\<close>, ties broken by the most recent creation or,
  in the wording of its testable properties, by the smallest id. These two
  definitions follow the spec, not the code, and serve only to compare it with
  the code.
\<close>

definition spec_newer :: "conversation \<Rightarrow> conversation \<Rightarrow> bool" where
  "spec_newer c best \<longleftrightarrow>
     c_last_message_at best < c_last_message_at c
     \<or> (c_last_message_at c = c_last_message_at best \<and> c_created_at best < c_created_at c)"

definition spec_newer_by_id :: "conversation \<Rightarrow> conversation \<Rightarrow> bool" where
  "spec_newer_by_id c best \<longleftrightarrow>
     c_last_message_at best < c_last_message_at c
     \<or> (c_last_message_at c = c_last_message_at best \<and> c_id c < c_id best)"

fun spec_pick :: "(conversation \<Rightarrow> conversation \<Rightarrow> bool) \<Rightarrow> conversation option \<Rightarrow> conversation list \<Rightarrow> conversation option" where
  "spec_pick better best [] = best"
| "spec_pick better None (c # cs) = spec_pick better (Some c) cs"
| "spec_pick better (Some b) (c # cs) = spec_pick better (if better c b then Some c else Some b) cs"

definition spec_canonical_thread :: "conversation list \<Rightarrow> conversation option" where
  "spec_canonical_thread g = spec_pick spec_newer None g"

definition spec_canonical_thread_by_id :: "conversation list \<Rightarrow> conversation option" where
  "spec_canonical_thread_by_id g = spec_pick spec_newer_by_id None g"

section \<open>The identity precedence as the spec words it\<close>

text \<open>
  The spec's display identity of a counterpart id: the record of the primary
  source (\<open>analysts\<close>) when one exists, otherwise the record of the fallback
  source (\<open>profiles\<close>) when one exists, otherwise the sentinel. This
  definition follows the spec and reads the two tables themselves; it serves
  only to compare the spec with the code.
\<close>

definition spec_identity :: "store \<Rightarrow> string \<Rightarrow> analyst_info" where
  "spec_identity st aid =
     (case List.find (\<lambda>a. a_id a = aid) (t_analysts st) of
        Some analyst \<Rightarrow>
          \<lparr> ai_name = a_name analyst, ai_email = a_email analyst, ai_avatar_url = a_avatar_url analyst \<rparr>
      | None \<Rightarrow>
          (case List.find (\<lambda>p. p_id p = aid) (t_profiles st) of
             Some profile \<Rightarrow>
               \<lparr> ai_name = p_full_name profile, ai_email = p_email profile,
                 ai_avatar_url = p_avatar_url profile \<rparr>
           | None \<Rightarrow> \<lparr> ai_name = ''Analista'', ai_email = [], ai_avatar_url = None \<rparr>))"

section \<open>Example stores\<close>

definition mk_conversation :: "string \<Rightarrow> string \<Rightarrow> timestamp \<Rightarrow> timestamp option \<Rightarrow> conversation" where
  "mk_conversation cid analyst created last_at =
     \<lparr> c_id = cid, c_analyst_id = analyst, c_creator_id = ''creator'', c_opportunity_id = None,
       c_created_at = created, c_last_message_at = last_at, c_custom_title = None, c_tags = None \<rparr>"

definition mk_message :: "string \<Rightarrow> string \<Rightarrow> string \<Rightarrow> bool \<Rightarrow> timestamp \<Rightarrow> message" where
  "mk_message cid body sender was_read created =
     \<lparr> m_conversation_id = cid, m_content = body, m_sender_type = ''analyst'',
       m_sender_id = sender, m_read = was_read, m_created_at = created \<rparr>"

text \<open>
  The end-to-end scenario of the spec: counterpart \<open>A\<close> has the threads
  \<open>A1\<close> (activity at 10, one unread message) and \<open>A2\<close> (activity at 5, two
  unread messages) and one approved engagement on the work \<open>W1\<close> it owns;
  counterpart \<open>B\<close> has one thread and no engagement. The chat below is the
  one chat the function returns on it.
\<close>

definition scenario_store :: store where
  "scenario_store =
     \<lparr> t_conversations =
         [mk_conversation ''A2'' ''A'' 1 (Some 5), mk_conversation ''B1'' ''B'' 2 (Some 1),
          mk_conversation ''A1'' ''A'' 3 (Some 10)],
       t_analysts = [\<lparr> a_id = ''A'', a_name = ''Ana'', a_email = ''ana@example.org'', a_avatar_url = None \<rparr>],
       t_profiles = [\<lparr> p_id = ''B'', p_full_name = ''Bia'', p_email = ''bia@example.org'', p_avatar_url = None \<rparr>],
       t_opportunity_applications =
         [\<lparr> app_id = ''E1'', app_opportunity_id = ''W1'', app_creator_id = ''creator'',
            app_status = ''approved'', app_applied_at = 0 \<rparr>],
       t_opportunities =
         [\<lparr> o_id = ''W1'', o_title = ''Campaign'', o_company = ''Acme'', o_analyst_id = ''A'',
            o_created_by = ''A'' \<rparr>],
       t_messages =
         [mk_message ''A1'' ''first'' ''A'' False 10, mk_message ''A2'' ''second'' ''A'' False 5,
          mk_message ''A2'' ''third'' ''A'' False 4, mk_message ''B1'' ''fourth'' ''B'' True 1],
       unavailable = (\<lambda>op. False) \<rparr>"

definition scenario_chat :: project_chat where
  "scenario_chat =
     \<lparr> pc_project_id = ''E1'', pc_opportunity_id = ''W1'',
       pc_opportunity = \<lparr> co_id = ''W1'', co_title = ''Campaign'', co_company = ''Acme'',
         co_status = ''active'', co_analyst_id = ''A'', co_created_by = ''A'' \<rparr>,
       pc_analyst = \<lparr> ca_name = ''Ana'', ca_company = ''Acme'', ca_avatar_url = None \<rparr>,
       pc_conversation_id = ''A1'', pc_last_message_at = Some 10,
       pc_lastMessage = Some \<lparr> lm_content = ''first'', lm_sender_type = ''analyst'', lm_created_at = 10 \<rparr>,
       pc_unread_count = 3, pc_custom_title = None, pc_tags = [] \<rparr>"

text \<open>
  Two conversations of the same analyst with the same \<open>last_message_at\<close>; the
  store returns \<open>c2\<close>, the older and larger id, first.
\<close>

definition tie_store :: store where
  "tie_store = scenario_store
     \<lparr> t_conversations := [mk_conversation ''c2'' ''A'' 1 (Some 10), mk_conversation ''c1'' ''A'' 2 (Some 10)] \<rparr>"

text \<open>
  A group all of whose conversations have no \<open>last_message_at\<close>.
\<close>

definition null_store :: store where
  "null_store = scenario_store
     \<lparr> t_conversations := [mk_conversation ''N1'' ''A'' 1 None, mk_conversation ''N2'' ''A'' 2 None] \<rparr>"

definition null_grouping :: grouping where
  "null_grouping = groupConversations [mk_conversation ''N1'' ''A'' 1 None]"

definition null_chat :: project_chat where
  "null_chat = scenario_chat \<lparr> pc_conversation_id := ''N1'', pc_last_message_at := None,
     pc_lastMessage := None, pc_unread_count := 0 \<rparr>"

text \<open>
  Two counterparts with one engagement each: with the same canonical
  \<open>last_message_at\<close> in \<open>order_store\<close>, with different ones in \<open>desc_store\<close>.
\<close>

definition order_store :: store where
  "order_store = scenario_store
     \<lparr> t_conversations := [mk_conversation ''B1'' ''B'' 1 (Some 10), mk_conversation ''A1'' ''A'' 2 (Some 10)],
       t_opportunity_applications :=
         [\<lparr> app_id = ''E1'', app_opportunity_id = ''W1'', app_creator_id = ''creator'',
            app_status = ''approved'', app_applied_at = 0 \<rparr>,
          \<lparr> app_id = ''E2'', app_opportunity_id = ''W2'', app_creator_id = ''creator'',
            app_status = ''approved'', app_applied_at = 0 \<rparr>],
       t_opportunities :=
         [\<lparr> o_id = ''W1'', o_title = ''Campaign'', o_company = ''Acme'', o_analyst_id = ''A'',
            o_created_by = ''A'' \<rparr>,
          \<lparr> o_id = ''W2'', o_title = ''Launch'', o_company = ''Bolt'', o_analyst_id = ''B'',
            o_created_by = ''B'' \<rparr>] \<rparr>"

definition desc_store :: store where
  "desc_store = order_store
     \<lparr> t_conversations := [mk_conversation ''B1'' ''B'' 1 (Some 3), mk_conversation ''A1'' ''A'' 2 (Some 10)] \<rparr>"

text \<open>
  The same two counterparts; \<open>A\<close> has a conversation without
  \<open>last_message_at\<close>, which the descending order of the store puts first, and
  one dated 5, while the conversation of \<open>B\<close> is dated 10.
\<close>

definition null_first_store :: store where
  "null_first_store = order_store
     \<lparr> t_conversations := [mk_conversation ''A0'' ''A'' 1 None, mk_conversation ''A1'' ''A'' 2 (Some 5),
          mk_conversation ''B1'' ''B'' 3 (Some 10)] \<rparr>"




text \<open>
  Three counterparts with one thread and one engagement each: \<open>A\<close> is in both
  identity sources, \<open>B\<close> only in \<open>profiles\<close>, \<open>C\<close> in neither.
\<close>

definition identity_store :: store where
  "identity_store =
     \<lparr> t_conversations =
         [mk_conversation ''A1'' ''A'' 1 (Some 30), mk_conversation ''B1'' ''B'' 2 (Some 20),
          mk_conversation ''C1'' ''C'' 3 (Some 10)],
       t_analysts =
         [\<lparr> a_id = ''A'', a_name = ''Ana'', a_email = ''ana@example.org'', a_avatar_url = Some ''ana.png'' \<rparr>],
       t_profiles =
         [\<lparr> p_id = ''A'', p_full_name = ''Ana Profile'', p_email = ''ana@example.com'',
            p_avatar_url = None \<rparr>,
          \<lparr> p_id = ''B'', p_full_name = ''Bia'', p_email = ''bia@example.org'',
            p_avatar_url = Some ''bia.png'' \<rparr>],
       t_opportunity_applications =
         [\<lparr> app_id = ''E1'', app_opportunity_id = ''W1'', app_creator_id = ''creator'',
            app_status = ''approved'', app_applied_at = 0 \<rparr>,
          \<lparr> app_id = ''E2'', app_opportunity_id = ''W2'', app_creator_id = ''creator'',
            app_status = ''approved'', app_applied_at = 0 \<rparr>,
          \<lparr> app_id = ''E3'', app_opportunity_id = ''W3'', app_creator_id = ''creator'',
            app_status = ''approved'', app_applied_at = 0 \<rparr>],
       t_opportunities =
         [\<lparr> o_id = ''W1'', o_title = ''Campaign'', o_company = ''Acme'', o_analyst_id = ''A'',
            o_created_by = ''A'' \<rparr>,
          \<lparr> o_id = ''W2'', o_title = ''Launch'', o_company = ''Bolt'', o_analyst_id = ''B'',
            o_created_by = ''B'' \<rparr>,
          \<lparr> o_id = ''W3'', o_title = ''Teaser'', o_company = ''Core'', o_analyst_id = ''C'',
            o_created_by = ''C'' \<rparr>],
       t_messages = [],
       unavailable = (\<lambda>op. False) \<rparr>"

text \<open>
  The scenario with some operations of the store failing.
\<close>

definition rpc_down_store :: store where
  "rpc_down_store = scenario_store \<lparr> unavailable := (\<lambda>op. op = GetLatestMessages) \<rparr>"

definition messaging_down_store :: store where
  "messaging_down_store = scenario_store \<lparr> unavailable := (\<lambda>op. op = Messages \<or> op = GetLatestMessages) \<rparr>"

definition identity_down_store :: store where
  "identity_down_store = scenario_store \<lparr> unavailable := (\<lambda>op. op = Analysts \<or> op = Profiles) \<rparr>"

definition analysts_down_store :: store where
  "analysts_down_store = identity_store \<lparr> unavailable := (\<lambda>op. op = Analysts) \<rparr>"

definition profiles_down_store :: store where
  "profiles_down_store = identity_store \<lparr> unavailable := (\<lambda>op. op = Profiles) \<rparr>"

definition fetch_down_store :: store where
  "fetch_down_store = scenario_store
     \<lparr> unavailable := (\<lambda>op. op = Conversations \<or> op = OpportunityApplications \<or> op = Opportunities) \<rparr>"

section \<open>The grouping loop\<close>

lemma date_gt_new_Date: "date_gt (new_Date a) (new_Date b) \<Longrightarrow> b < a"
proof (rule ccontr)
  assume gt: "date_gt (new_Date a) (new_Date b)" and "\<not> b < a"
  then have "a div 1000 \<le> b div 1000" by (simp add: zdiv_mono1)
  with gt show False by (auto simp: new_Date_def Let_def split: if_splits)
qed

lemma more_recent_less: "more_recent cur ex \<Longrightarrow> ex < cur"
  by (cases cur; cases ex) (auto dest: date_gt_new_Date)

lemma not_more_recent: "cur \<le> ex \<Longrightarrow> \<not> more_recent cur ex"
  using more_recent_less[of cur ex] by auto

lemma not_more_recent_ordered:
  "\<not> more_recent cur ex \<Longrightarrow> desc_before ex cur \<Longrightarrow> cur \<le> ex"
  by (cases cur; cases ex) auto

lemma push_id_keys: "map fst (push_id k cid m) = map fst m"
proof (cases "map_of m k")
  case None
  then show ?thesis by (simp add: push_id_def)
next
  case (Some ids)
  then have "k \<in> fst ` set m" by (auto dest: map_of_SomeD intro: rev_image_eqI)
  with Some show ?thesis by (simp add: push_id_def update_keys)
qed

lemma push_id_map_of:
  "map_of (push_id k cid m) k' =
     (if k' = k then map_option (\<lambda>ids. ids @ [cid]) (map_of m k) else map_of m k')"
  by (auto simp: push_id_def update_conv' split: option.splits)

lemma group_conv_fields:
  "allAnalystIds (group_conv s conv) = set_add (c_analyst_id conv) (allAnalystIds s)"
  "analystConversations (group_conv s conv) =
     (case map_of (analystConversations s) (c_analyst_id conv) of
        None \<Rightarrow> AList.update (c_analyst_id conv) (seed_conversation conv) (analystConversations s)
      | Some existing \<Rightarrow>
          if more_recent (c_last_message_at conv) (u_last_message_at existing)
          then AList.update (c_analyst_id conv) (replace_canonical existing conv) (analystConversations s)
          else analystConversations s)"
  "allConversationsByAnalyst (group_conv s conv) =
     push_id (c_analyst_id conv) (c_id conv)
       (case map_of (analystConversations s) (c_analyst_id conv) of
          None \<Rightarrow> AList.update (c_analyst_id conv) [] (allConversationsByAnalyst s)
        | Some existing \<Rightarrow> allConversationsByAnalyst s)"
  by (simp_all add: group_conv_def Let_def split: option.splits)

lemma map_of_None_keys: "map_of al k = None \<longleftrightarrow> k \<notin> set (map fst al)"
  by (simp add: map_of_eq_None_iff)

lemma group_conv_keys:
  assumes "map fst (analystConversations s) = allAnalystIds s"
    and "map fst (allConversationsByAnalyst s) = allAnalystIds s"
  shows "map fst (analystConversations (group_conv s conv)) = allAnalystIds (group_conv s conv)"
    and "map fst (allConversationsByAnalyst (group_conv s conv)) = allAnalystIds (group_conv s conv)"
proof -
  let ?k = "c_analyst_id conv"
  show "map fst (analystConversations (group_conv s conv)) = allAnalystIds (group_conv s conv)"
  proof (cases "map_of (analystConversations s) ?k")
    case None
    then have "?k \<notin> set (allAnalystIds s)" using assms(1) by (simp add: map_of_None_keys)
    with None assms show ?thesis by (simp add: group_conv_fields update_keys set_add_def)
  next
    case (Some ex)
    then have "?k \<in> set (allAnalystIds s)"
      using assms(1) map_of_None_keys[of "analystConversations s" ?k] by auto
    with Some assms show ?thesis by (simp add: group_conv_fields update_keys set_add_def)
  qed
  show "map fst (allConversationsByAnalyst (group_conv s conv)) = allAnalystIds (group_conv s conv)"
  proof (cases "map_of (analystConversations s) ?k")
    case None
    then have "?k \<notin> set (allAnalystIds s)" using assms(1) by (simp add: map_of_None_keys)
    with None assms show ?thesis by (simp add: group_conv_fields push_id_keys update_keys set_add_def)
  next
    case (Some ex)
    then have "?k \<in> set (allAnalystIds s)"
      using assms(1) map_of_None_keys[of "analystConversations s" ?k] by auto
    with Some assms show ?thesis by (simp add: group_conv_fields push_id_keys update_keys set_add_def)
  qed
qed

lemma is_canonical_seed: "is_canonical [c] (seed_conversation c)"
  unfolding is_canonical_def
  by (rule exI[of _ "[]"], rule exI[of _ c], rule exI[of _ "[]"]) (simp add: seed_conversation_def)

lemma is_canonical_replace:
  assumes "is_canonical g u" and "more_recent (c_last_message_at c) (u_last_message_at u)"
  shows "is_canonical (g @ [c]) (replace_canonical u c)"
proof -
  from assms(1) obtain pre d post where g: "g = pre @ d # post"
    and post: "\<forall>x\<in>set post. c_last_message_at x \<le> c_last_message_at d"
    and pre: "\<forall>x\<in>set pre. c_last_message_at x < c_last_message_at d"
    and u: "u_last_message_at u = c_last_message_at d"
    unfolding is_canonical_def by blast
  from assms(2) u have lt: "c_last_message_at d < c_last_message_at c"
    by (simp add: more_recent_less)
  have "\<forall>x\<in>set g. c_last_message_at x < c_last_message_at c"
    using g pre post lt by (auto intro: less_trans le_less_trans)
  then show ?thesis
    unfolding is_canonical_def
    by (intro exI[of _ g] exI[of _ c] exI[of _ "[]"]) (simp add: replace_canonical_def)
qed

lemma is_canonical_keep:
  assumes "is_canonical g u" and "\<not> more_recent (c_last_message_at c) (u_last_message_at u)"
    and "\<forall>x\<in>set g. desc_before (c_last_message_at x) (c_last_message_at c)"
  shows "is_canonical (g @ [c]) u"
proof -
  from assms(1) obtain pre d post where g: "g = pre @ d # post"
    and post: "\<forall>x\<in>set post. c_last_message_at x \<le> c_last_message_at d"
    and pre: "\<forall>x\<in>set pre. c_last_message_at x < c_last_message_at d"
    and u: "u_id u = c_id d" "u_last_message_at u = c_last_message_at d"
      "u_custom_title u = c_custom_title d" "u_tags u = c_tags d"
    unfolding is_canonical_def by blast
  from assms(3) g have "desc_before (c_last_message_at d) (c_last_message_at c)" by simp
  with assms(2) u have le: "c_last_message_at c \<le> c_last_message_at d"
    by (simp add: not_more_recent_ordered)
  show ?thesis
    unfolding is_canonical_def
    using g pre post le u
    by (intro exI[of _ pre] exI[of _ d] exI[of _ "post @ [c]"]) auto
qed

lemma groupConversations_snoc:
  "groupConversations (convs @ [c]) = group_conv (groupConversations convs) c"
  by (simp add: groupConversations_def)

lemma groupConversations_Nil: "groupConversations [] = empty_grouping"
  by (simp add: groupConversations_def)

lemma grouping_keys:
  "map fst (analystConversations (groupConversations convs)) = allAnalystIds (groupConversations convs)
   \<and> map fst (allConversationsByAnalyst (groupConversations convs)) = allAnalystIds (groupConversations convs)"
proof (induction convs rule: rev_induct)
  case Nil
  show ?case by (simp add: groupConversations_Nil empty_grouping_def)
next
  case (snoc c convs)
  then show ?case using group_conv_keys[of "groupConversations convs" c]
    by (simp add: groupConversations_snoc)
qed

lemma allAnalystIds_set:
  "set (allAnalystIds (groupConversations convs)) = c_analyst_id ` set convs"
  by (induction convs rule: rev_induct)
     (auto simp: groupConversations_Nil empty_grouping_def groupConversations_snoc
        group_conv_fields set_add_def)

lemma allAnalystIds_distinct: "distinct (allAnalystIds (groupConversations convs))"
  by (induction convs rule: rev_induct)
     (auto simp: groupConversations_Nil empty_grouping_def groupConversations_snoc
        group_conv_fields set_add_def)

lemma analystConversations_None:
  "map_of (analystConversations (groupConversations convs)) k = None \<longleftrightarrow> k \<notin> c_analyst_id ` set convs"
  using grouping_keys[of convs] allAnalystIds_set[of convs]
  by (simp add: map_of_None_keys)

lemma group_of_empty: "k \<notin> c_analyst_id ` set convs \<Longrightarrow> group_of k convs = []"
  by (induction convs) (auto simp: group_of_def)

lemma allConversationsByAnalyst_map_of:
  "map_of (allConversationsByAnalyst (groupConversations convs)) k =
     (if k \<in> c_analyst_id ` set convs then Some (map c_id (group_of k convs)) else None)"
proof (induction convs rule: rev_induct)
  case Nil
  show ?case by (simp add: groupConversations_Nil empty_grouping_def)
next
  case (snoc c convs)
  show ?case
  proof (cases "map_of (analystConversations (groupConversations convs)) (c_analyst_id c)")
    case None
    then have "c_analyst_id c \<notin> c_analyst_id ` set convs" by (simp add: analystConversations_None)
    then have "group_of (c_analyst_id c) convs = []"
      by (rule group_of_empty)
    with None snoc show ?thesis
      by (auto simp: groupConversations_snoc group_conv_fields push_id_map_of update_conv' group_of_def)
  next
    case (Some ex)
    then have "c_analyst_id c \<in> c_analyst_id ` set convs"
      using analystConversations_None[of convs "c_analyst_id c"] by auto
    with Some snoc show ?thesis
      by (auto simp: groupConversations_snoc group_conv_fields push_id_map_of group_of_def)
  qed
qed

lemma analystConversations_analyst:
  "map_of (analystConversations (groupConversations convs)) k = Some u \<Longrightarrow> u_analyst_id u = k"
proof (induction convs arbitrary: u rule: rev_induct)
  case Nil
  then show ?case by (simp add: groupConversations_Nil empty_grouping_def)
next
  case (snoc c convs)
  let ?G = "groupConversations convs"
  show ?case
  proof (cases "k = c_analyst_id c")
    case False
    with snoc.prems have "map_of (analystConversations ?G) k = Some u"
      by (auto simp: groupConversations_snoc group_conv_fields update_conv' split: option.splits if_splits)
    with snoc.IH show ?thesis by simp
  next
    case True
    show ?thesis
    proof (cases "map_of (analystConversations ?G) k")
      case None
      with True snoc.prems have "u = seed_conversation c"
        by (simp add: groupConversations_snoc group_conv_fields update_conv')
      with True show ?thesis by (simp add: seed_conversation_def)
    next
      case (Some ex)
      then have "u_analyst_id ex = k" using snoc.IH by simp
      moreover from Some True snoc.prems have "u = replace_canonical ex c \<or> u = ex"
        by (auto simp: groupConversations_snoc group_conv_fields update_conv' split: if_splits)
      ultimately show ?thesis by (auto simp: replace_canonical_def)
    qed
  qed
qed

lemma analystConversations_canonical:
  "desc_ordered convs \<Longrightarrow> map_of (analystConversations (groupConversations convs)) k = Some u
     \<Longrightarrow> is_canonical (group_of k convs) u \<and> u_analyst_id u = k"
proof (induction convs arbitrary: u rule: rev_induct)
  case Nil
  then show ?case by (simp add: groupConversations_Nil empty_grouping_def)
next
  case (snoc c convs)
  let ?G = "groupConversations convs"
  from snoc.prems(1) have srt: "desc_ordered convs"
    and after: "\<forall>x\<in>set convs. desc_before (c_last_message_at x) (c_last_message_at c)"
    by (simp_all add: desc_ordered_def sorted_wrt_append)
  note IH = snoc.IH[OF srt]
  note prem = snoc.prems(2)
  show ?case
  proof (cases "k = c_analyst_id c")
    case False
    with prem have "map_of (analystConversations ?G) k = Some u"
      by (auto simp: groupConversations_snoc group_conv_fields update_conv' split: option.splits if_splits)
    with IH False show ?thesis by (simp add: group_of_def)
  next
    case True
    show ?thesis
    proof (cases "map_of (analystConversations ?G) k")
      case None
      then have "k \<notin> c_analyst_id ` set convs" by (simp add: analystConversations_None)
      then have "group_of k convs = []" by (rule group_of_empty)
      moreover from None True prem have "u = seed_conversation c"
        by (simp add: groupConversations_snoc group_conv_fields update_conv')
      ultimately show ?thesis using True
        by (simp add: group_of_def is_canonical_seed) (simp add: seed_conversation_def)
    next
      case (Some ex)
      then have ex: "is_canonical (group_of k convs) ex" "u_analyst_id ex = k"
        using IH by auto
      show ?thesis
      proof (cases "more_recent (c_last_message_at c) (u_last_message_at ex)")
        case mr: True
        with Some True prem have "u = replace_canonical ex c"
          by (simp add: groupConversations_snoc group_conv_fields update_conv')
        with ex mr True show ?thesis
          using is_canonical_replace[of "group_of k convs" ex c]
          by (simp add: group_of_def) (simp add: replace_canonical_def)
      next
        case mr: False
        with Some True prem have "u = ex"
          by (simp add: groupConversations_snoc group_conv_fields)
        moreover have "\<forall>x\<in>set (group_of k convs).
            desc_before (c_last_message_at x) (c_last_message_at c)"
          using after by (simp add: group_of_def)
        ultimately show ?thesis
          using ex mr True is_canonical_keep[of "group_of k convs" ex c]
          by (simp add: group_of_def)
      qed
    qed
  qed
qed

section \<open>The function as a composition of its steps\<close>

lemma select_conversations_error: "error_of (select_conversations st userId) = unavailable st Conversations"
  by (simp add: select_conversations_def)

lemma fetchCreatorChats_eq:
  "fetchCreatorChats st userId =
     (if unavailable st Conversations then []
      else concat (map (chats_of_group st userId) (map snd (analystConversations (groups st userId)))))"
  by (simp add: fetchCreatorChats_def fetchCreatorChats_traced_def Let_def split_def
      select_conversations_error chats_of_group_def[abs_def] groups_def conversationData_def
      analystsMap_of_def applications_of_def opportunitiesMap_of_def allConvIds_of_def
      unreadCountsMap_of_def latestMessagesMap_of_def)

lemma store_calls_eq:
  "store_calls st userId =
     (if unavailable st Conversations then [SelectConversations userId]
      else [SelectConversations userId]
        @ (if allAnalystIds (groups st userId) \<noteq> []
           then [SelectAnalysts (allAnalystIds (groups st userId)),
                 SelectProfiles (allAnalystIds (groups st userId))] else [])
        @ [SelectApplications userId]
        @ (if or_empty (applications_of st userId) \<noteq> []
           then [SelectOpportunities (map app_opportunity_id (or_empty (applications_of st userId)))]
           else [])
        @ (if allConvIds_of st userId \<noteq> []
           then [SelectUnreadMessages (allConvIds_of st userId) userId] else [])
        @ (if allConvIds_of st userId \<noteq> []
           then [RpcGetLatestMessages (allConvIds_of st userId)] else []))"
  by (simp add: store_calls_def fetchCreatorChats_traced_def Let_def split_def
      select_conversations_error groups_def conversationData_def
      applications_of_def allConvIds_of_def)

lemma store_calls_ids:
  assumes "call \<in> set (store_calls st userId)" and "ids_argument call = Some ids"
  shows "ids = allAnalystIds (groups st userId)
       \<or> ids = map app_opportunity_id (or_empty (applications_of st userId))
       \<or> ids = allConvIds_of st userId"
  using assms by (auto simp: store_calls_eq split: if_splits)

lemma analystConversations_distinct:
  "distinct (map fst (analystConversations (groupConversations convs)))"
  using grouping_keys[of convs] allAnalystIds_distinct[of convs] by simp

lemma analystConversations_member:
  "(k, u) \<in> set (analystConversations (groupConversations convs))
     \<longleftrightarrow> map_of (analystConversations (groupConversations convs)) k = Some u"
  using analystConversations_distinct[of convs] by (simp add: map_of_eq_Some_iff)

lemma group_member_key:
  assumes "conv \<in> set (map snd (analystConversations (groupConversations convs)))"
  shows "(u_analyst_id conv, conv) \<in> set (analystConversations (groupConversations convs))"
proof -
  from assms obtain k where k: "(k, conv) \<in> set (analystConversations (groupConversations convs))"
    by auto
  then have "map_of (analystConversations (groupConversations convs)) k = Some conv"
    by (simp add: analystConversations_member)
  then have "u_analyst_id conv = k" by (rule analystConversations_analyst)
  with k show ?thesis by simp
qed

lemma group_member_canonical:
  assumes "desc_ordered convs"
    and "conv \<in> set (map snd (analystConversations (groupConversations convs)))"
  shows "is_canonical (group_of (u_analyst_id conv) convs) conv"
proof -
  from group_member_key[OF assms(2)]
  have "map_of (analystConversations (groupConversations convs)) (u_analyst_id conv) = Some conv"
    by (simp add: analystConversations_member)
  from analystConversations_canonical[OF assms(1) this] show ?thesis by simp
qed

lemma formattedProjects_analyst:
  "p \<in> set (formattedProjects apps om conv) \<Longrightarrow> pr_analyst_id p = u_analyst_id conv"
  by (auto simp: formattedProjects_def List.map_filter_def format_project_def
      split: option.splits if_splits)

lemma unifiedConversation_fields:
  assumes "ch \<in> set (unifiedConversation am apps om acb lm um conv)"
  shows "pc_conversation_id ch = u_id conv"
    and "pc_last_message_at ch = u_last_message_at conv"
    and "pc_custom_title ch = title_or_null (u_custom_title conv)"
    and "pc_tags ch = or_empty (u_tags conv)"
    and "co_analyst_id (pc_opportunity ch) = u_analyst_id conv"
    and "pc_unread_count ch =
           count_unread um (case map_of acb (u_analyst_id conv) of None \<Rightarrow> [] | Some ids \<Rightarrow> ids)"
    and "pc_lastMessage ch =
           find_lastMessage lm (case map_of acb (u_analyst_id conv) of None \<Rightarrow> [] | Some ids \<Rightarrow> ids)"
    and "ca_name (pc_analyst ch) =
           ai_name (case am (u_analyst_id conv) of None \<Rightarrow> sentinel_analyst | Some info \<Rightarrow> info)"
    and "ca_avatar_url (pc_analyst ch) =
           ai_avatar_url (case am (u_analyst_id conv) of None \<Rightarrow> sentinel_analyst | Some info \<Rightarrow> info)"
  using assms formattedProjects_analyst[of _ apps om conv]
  by (auto simp: unifiedConversation_def Let_def to_project_chat_def)

lemma fetchCreatorChats_member:
  assumes "ch \<in> set (fetchCreatorChats st userId)"
  obtains conv where "conv \<in> set (map snd (analystConversations (groups st userId)))"
    and "ch \<in> set (chats_of_group st userId conv)"
    and "\<not> unavailable st Conversations"
  using assms by (auto simp: fetchCreatorChats_eq split: if_splits)

lemma canonical_all_null:
  assumes "is_canonical g u" and "\<forall>c\<in>set g. c_last_message_at c = None"
  shows "\<exists>c rest. g = c # rest \<and> u_id u = c_id c"
proof -
  from assms(1) obtain pre c post where g: "g = pre @ c # post"
    and older: "\<forall>x\<in>set pre. c_last_message_at x < c_last_message_at c"
    and uid: "u_id u = c_id c"
    unfolding is_canonical_def by blast
  from assms(2) g have "c_last_message_at c = None" by simp
  with older have "pre = []" by (cases pre) auto
  with g uid show ?thesis by simp
qed

lemma canonical_some_dated:
  assumes "is_canonical g u" and "\<exists>c\<in>set g. c_last_message_at c \<noteq> None"
  shows "\<exists>c\<in>set g. c_last_message_at c \<noteq> None \<and> u_id u = c_id c
           \<and> u_last_message_at u = c_last_message_at c"
proof -
  from assms(1) obtain pre c post where g: "g = pre @ c # post"
    and older: "\<forall>x\<in>set pre. c_last_message_at x < c_last_message_at c"
    and later: "\<forall>x\<in>set post. c_last_message_at x \<le> c_last_message_at c"
    and u: "u_id u = c_id c" "u_last_message_at u = c_last_message_at c"
    unfolding is_canonical_def by blast
  from assms(2) obtain d where d: "d \<in> set g" "c_last_message_at d \<noteq> None" by blast
  have "c_last_message_at d \<le> c_last_message_at c"
    using d(1) older later unfolding g by (auto simp: less_imp_le)
  with d(2) have "c_last_message_at c \<noteq> None"
    by (cases "c_last_message_at d"; cases "c_last_message_at c") simp_all
  with g u show ?thesis by auto
qed

section \<open>The conversations query\<close>

lemma insert_desc_set: "set (insert_desc c ds) = insert c (set ds)"
  by (induction ds) auto

lemma insert_desc_distinct:
  "distinct (map f (insert_desc c ds)) \<longleftrightarrow> f c \<notin> f ` set ds \<and> distinct (map f ds)"
  by (induction ds) (auto simp: insert_desc_set)

lemma order_desc_set: "set (order_last_message_at_desc rows) = set rows"
  by (induction rows) (auto simp: order_last_message_at_desc_def insert_desc_set)

lemma order_desc_distinct:
  "distinct (map f (order_last_message_at_desc rows)) \<longleftrightarrow> distinct (map f rows)"
  using order_desc_set[unfolded order_last_message_at_desc_def]
  by (induction rows) (auto simp: order_last_message_at_desc_def insert_desc_distinct)

lemma conversationData_distinct:
  "distinct (map c_id (t_conversations st)) \<Longrightarrow> distinct (map c_id (conversationData st userId))"
  by (simp add: conversationData_def select_conversations_def order_desc_distinct distinct_map_filter)

lemma group_of_distinct: "distinct (map c_id convs) \<Longrightarrow> distinct (map c_id (group_of k convs))"
  by (simp add: group_of_def distinct_map_filter)

lemma group_of_subset: "set (group_of k convs) \<subseteq> set convs"
  by (auto simp: group_of_def)

section \<open>Conversation ids of a group\<close>

lemma allConversationsByAnalyst_member:
  "(k, ids) \<in> set (allConversationsByAnalyst (groupConversations convs))
     \<longleftrightarrow> k \<in> c_analyst_id ` set convs \<and> ids = map c_id (group_of k convs)"
proof -
  have "distinct (map fst (allConversationsByAnalyst (groupConversations convs)))"
    using grouping_keys[of convs] allAnalystIds_distinct[of convs] by simp
  then have "(k, ids) \<in> set (allConversationsByAnalyst (groupConversations convs))
     \<longleftrightarrow> map_of (allConversationsByAnalyst (groupConversations convs)) k = Some ids"
    by (simp add: map_of_eq_Some_iff)
  then show ?thesis by (auto simp: allConversationsByAnalyst_map_of)
qed

lemma allConvIds_set:
  "set (concat (map snd (allConversationsByAnalyst (groupConversations convs)))) = c_id ` set convs"
proof (intro set_eqI iffI)
  fix x assume "x \<in> set (concat (map snd (allConversationsByAnalyst (groupConversations convs))))"
  then obtain k ids where "(k, ids) \<in> set (allConversationsByAnalyst (groupConversations convs))"
    and "x \<in> set ids" by auto
  then show "x \<in> c_id ` set convs"
    using group_of_subset[of k convs] by (auto simp: allConversationsByAnalyst_member)
next
  fix x assume "x \<in> c_id ` set convs"
  then obtain c where c: "c \<in> set convs" "x = c_id c" by auto
  then have "(c_analyst_id c, map c_id (group_of (c_analyst_id c) convs))
     \<in> set (allConversationsByAnalyst (groupConversations convs))"
    by (simp add: allConversationsByAnalyst_member)
  moreover from c have "x \<in> set (map c_id (group_of (c_analyst_id c) convs))"
    by (auto simp: group_of_def)
  ultimately show "x \<in> set (concat (map snd (allConversationsByAnalyst (groupConversations convs))))"
    by (auto intro!: bexI)
qed

lemma group_ids:
  assumes "conv \<in> set (map snd (analystConversations (groupConversations convs)))"
  shows "(case map_of (allConversationsByAnalyst (groupConversations convs)) (u_analyst_id conv) of
           None \<Rightarrow> [] | Some ids \<Rightarrow> ids) = map c_id (group_of (u_analyst_id conv) convs)"
proof -
  from group_member_key[OF assms]
  have "map_of (analystConversations (groupConversations convs)) (u_analyst_id conv) = Some conv"
    by (simp add: analystConversations_member)
  then have "u_analyst_id conv \<in> c_analyst_id ` set convs"
    using analystConversations_None[of convs "u_analyst_id conv"] by auto
  then show ?thesis by (simp add: allConversationsByAnalyst_map_of)
qed

section \<open>Unread counts\<close>

lemma unread_fold:
  "count_or_zero (foldl (\<lambda>m cid. m(cid \<mapsto> count_or_zero m cid + 1)) m0 rows) cid
     = count_or_zero m0 cid + length (filter (\<lambda>r. r = cid) rows)"
  by (induction rows arbitrary: m0) (auto simp: count_or_zero_def)

lemma build_unreadCountsMap_count:
  "count_or_zero (build_unreadCountsMap (Some rows)) cid = length (filter (\<lambda>r. r = cid) rows)"
  using unread_fold[of Map.empty rows cid]
  by (simp add: build_unreadCountsMap_def count_or_zero_def)

lemma count_unread_fold:
  "foldl (\<lambda>unreadCount cid. unreadCount + f cid) a ids = a + sum_list (map f ids)"
  by (induction ids arbitrary: a) (auto simp: add.assoc)

lemma count_unread_sum: "count_unread um ids = sum_list (map (count_or_zero um) ids)"
  by (simp add: count_unread_def count_unread_fold)

lemma sum_per_thread:
  "distinct ids \<Longrightarrow>
     sum_list (map (\<lambda>cid. length (filter (\<lambda>m. f m = cid \<and> Q m) ms)) ids)
       = length (filter (\<lambda>m. f m \<in> set ids \<and> Q m) ms)"
proof (induction ms)
  case Nil
  then show ?case by (induction ids) auto
next
  case (Cons m ms)
  have one: "distinct ids \<Longrightarrow> sum_list (map (\<lambda>cid. if f m = cid then (1::nat) else 0) ids)
               = (if f m \<in> set ids then 1 else 0)"
    by (induction ids) auto
  have "sum_list (map (\<lambda>cid. length (filter (\<lambda>m. f m = cid \<and> Q m) (m # ms))) ids)
      = sum_list (map (\<lambda>cid. (if f m = cid \<and> Q m then 1 else 0)
                            + length (filter (\<lambda>m. f m = cid \<and> Q m) ms)) ids)"
    by (intro arg_cong[of _ _ sum_list] map_cong) auto
  also have "\<dots> = sum_list (map (\<lambda>cid. if f m = cid \<and> Q m then (1::nat) else 0) ids)
      + sum_list (map (\<lambda>cid. length (filter (\<lambda>m. f m = cid \<and> Q m) ms)) ids)"
    by (simp add: sum_list_addf)
  also have "sum_list (map (\<lambda>cid. if f m = cid \<and> Q m then (1::nat) else 0) ids)
      = (if f m \<in> set ids \<and> Q m then 1 else 0)"
    using one[OF Cons.prems] by (cases "Q m") simp_all
  finally show ?case using Cons by simp
qed

lemma count_rows:
  "length (filter (\<lambda>r. r = cid) (map f (filter P ms))) = length (filter (\<lambda>m. f m = cid \<and> P m) ms)"
  by (induction ms) auto

lemma unreadCountsMap_of_count:
  assumes "\<not> unavailable st Messages" and "cid \<in> set (allConvIds_of st userId)"
  shows "count_or_zero (unreadCountsMap_of st userId) cid =
           length (filter (\<lambda>m. m_conversation_id m = cid \<and> \<not> m_read m \<and> m_sender_id m \<noteq> userId)
             (t_messages st))"
proof -
  let ?all = "allConvIds_of st userId"
  let ?P = "\<lambda>m. m_conversation_id m \<in> set ?all \<and> \<not> m_read m \<and> m_sender_id m \<noteq> userId"
  from assms(2) have ne: "?all \<noteq> []" by auto
  have "unreadCountsMap_of st userId
      = build_unreadCountsMap (Some (map m_conversation_id (filter ?P (t_messages st))))"
    using assms(1) ne by (simp add: unreadCountsMap_of_def Let_def select_unread_messages_def)
  then have "count_or_zero (unreadCountsMap_of st userId) cid
      = length (filter (\<lambda>m. m_conversation_id m = cid \<and> ?P m) (t_messages st))"
    by (simp only: build_unreadCountsMap_count count_rows)
  also have "\<dots> = length (filter (\<lambda>m. m_conversation_id m = cid \<and> \<not> m_read m
                                \<and> m_sender_id m \<noteq> userId) (t_messages st))"
    by (rule arg_cong[of _ _ length], rule filter_cong) (use assms(2) in auto)
  finally show ?thesis .
qed

section \<open>Latest messages\<close>









lemma date_gt_ms:
  "new_Date a \<noteq> Invalid_Date \<Longrightarrow> new_Date b \<noteq> Invalid_Date
     \<Longrightarrow> date_gt (new_Date a) (new_Date b) \<longleftrightarrow> b div 1000 < a div 1000"
  by (auto simp: new_Date_def Let_def split: if_splits)

lemma rows_valid_snoc:
  "rows_valid lm (ids @ [cid]) \<longleftrightarrow>
     rows_valid lm ids \<and> (\<forall>msg. lm cid = Some msg \<longrightarrow> new_Date (md_created_at msg) \<noteq> Invalid_Date)"
  by (auto simp: rows_valid_def)

lemma last_message_step_inv:
  assumes "last_message_inv lm ids acc"
  shows "last_message_inv lm (ids @ [cid]) (last_message_step lm acc cid)"
proof (cases "lm cid")
  case None
  with assms show ?thesis
    by (auto simp: last_message_inv_def last_message_step_def rows_valid_snoc)
next
  case (Some msg)
  obtain l d where acc: "acc = (l, d)" by (cases acc)
  show ?thesis
  proof (cases l)
    case None
    with assms acc have "\<forall>c\<in>set ids. lm c = None" and "d = None"
      by (simp_all add: last_message_inv_def)
    with acc None Some show ?thesis
      by (auto simp: last_message_inv_def last_message_step_def Let_def md_last_message_def)
  next
    case l: (Some l')
    from assms acc l have d: "d = Some (new_Date (lm_created_at l'))"
      and src: "\<exists>c\<in>set ids. \<exists>m. lm c = Some m \<and> l' = md_last_message m"
      and mx: "rows_valid lm ids \<Longrightarrow>
          \<forall>c\<in>set ids. \<forall>m. lm c = Some m \<longrightarrow> md_created_at m div 1000 \<le> lm_created_at l' div 1000"
      by (simp_all add: last_message_inv_def)
    have valid_l: "new_Date (lm_created_at l') \<noteq> Invalid_Date" if "rows_valid lm ids"
      using src that by (auto simp: rows_valid_def md_last_message_def)
    show ?thesis
    proof (cases "date_gt (new_Date (md_created_at msg)) (new_Date (lm_created_at l'))")
      case True
      then have step: "last_message_step lm acc cid
          = (Some (md_last_message msg), Some (new_Date (md_created_at msg)))"
        using acc d Some by (simp add: last_message_step_def Let_def md_last_message_def)
      have "md_created_at m div 1000 \<le> md_created_at msg div 1000"
        if v: "rows_valid lm (ids @ [cid])" and c: "c \<in> set (ids @ [cid])" and m: "lm c = Some m"
        for c m
      proof (cases "c = cid")
        case True
        with m Some show ?thesis by simp
      next
        case False
        with c have cin: "c \<in> set ids" by simp
        from v have vi: "rows_valid lm ids"
          and vm: "new_Date (md_created_at msg) \<noteq> Invalid_Date"
          using Some by (simp_all add: rows_valid_snoc)
        from mx[OF vi] cin m have "md_created_at m div 1000 \<le> lm_created_at l' div 1000" by blast
        moreover from True date_gt_ms[OF vm valid_l[OF vi]]
        have "lm_created_at l' div 1000 < md_created_at msg div 1000" by simp
        ultimately show ?thesis by simp
      qed
      then show ?thesis
        unfolding step last_message_inv_def using Some
        by (auto simp: md_last_message_def)
    next
      case False
      then have step: "last_message_step lm acc cid = acc"
        using acc d Some by (simp add: last_message_step_def Let_def)
      have "md_created_at m div 1000 \<le> lm_created_at l' div 1000"
        if v: "rows_valid lm (ids @ [cid])" and c: "c \<in> set (ids @ [cid])" and m: "lm c = Some m"
        for c m
      proof (cases "c = cid")
        case True
        from v have vi: "rows_valid lm ids"
          and vm: "new_Date (md_created_at msg) \<noteq> Invalid_Date"
          using Some by (simp_all add: rows_valid_snoc)
        from False date_gt_ms[OF vm valid_l[OF vi]]
        have "md_created_at msg div 1000 \<le> lm_created_at l' div 1000" by simp
        with True m Some show ?thesis by simp
      next
        case False
        with c have cin: "c \<in> set ids" by simp
        from v have vi: "rows_valid lm ids" by (simp add: rows_valid_snoc)
        from mx[OF vi] cin m show ?thesis by blast
      qed
      moreover from src have "\<exists>c\<in>set (ids @ [cid]). \<exists>m. lm c = Some m \<and> l' = md_last_message m"
        by auto
      ultimately show ?thesis
        unfolding step last_message_inv_def using acc l d Some
        by auto
    qed
  qed
qed

lemma find_lastMessage_inv:
  "last_message_inv lm ids (foldl (last_message_step lm) (None, None) ids)"
proof (induction ids rule: rev_induct)
  case Nil
  show ?case by (simp add: last_message_inv_def)
next
  case (snoc cid ids)
  then show ?case using last_message_step_inv[of lm ids _ cid] by simp
qed

lemma find_lastMessage_None:
  "find_lastMessage lm ids = None \<longleftrightarrow> (\<forall>cid\<in>set ids. lm cid = None)"
  using find_lastMessage_inv[of lm ids] by (simp add: find_lastMessage_def last_message_inv_def)



section \<open>Identities\<close>

lemma fold_set_lookup:
  "foldl (\<lambda>m k. m(k \<mapsto> f k)) m0 ks x = (if x \<in> set ks then Some (f x) else m0 x)"
  by (induction ks arbitrary: m0) auto

lemma build_analystsMap_lookup:
  "build_analystsMap analysts profiles ids aid =
     (if aid \<in> set ids then Some (resolve_analyst analysts profiles aid) else None)"
  unfolding build_analystsMap_def by (simp only: fold_set_lookup)

lemma find_filter: "(\<And>x. P x \<Longrightarrow> Q x) \<Longrightarrow> List.find P (filter Q xs) = List.find P xs"
  by (induction xs) auto

lemma analystsMap_of_identity:
  assumes "\<not> unavailable st Analysts" and "\<not> unavailable st Profiles"
    and "aid \<in> c_analyst_id ` set (conversationData st userId)"
  shows "analystsMap_of st userId aid = Some (spec_identity st aid)"
proof -
  let ?ids = "allAnalystIds (groups st userId)"
  from assms(3) have mem: "aid \<in> set ?ids"
    by (simp add: groups_def allAnalystIds_set)
  then have ne: "?ids \<noteq> []" by auto
  have a: "find_opt (\<lambda>a. a_id a = aid) (data_of (select_analysts st ?ids))
      = List.find (\<lambda>a. a_id a = aid) (t_analysts st)"
    using assms(1) mem find_filter[of "\<lambda>a. a_id a = aid" "\<lambda>a. a_id a \<in> set ?ids" "t_analysts st"]
    by (simp add: select_analysts_def find_opt_def)
  have p: "find_opt (\<lambda>p. p_id p = aid) (data_of (select_profiles st ?ids))
      = List.find (\<lambda>p. p_id p = aid) (t_profiles st)"
    using assms(2) mem find_filter[of "\<lambda>p. p_id p = aid" "\<lambda>p. p_id p \<in> set ?ids" "t_profiles st"]
    by (simp add: select_profiles_def find_opt_def)
  have "analystsMap_of st userId aid
      = Some (resolve_analyst (data_of (select_analysts st ?ids)) (data_of (select_profiles st ?ids)) aid)"
    using ne mem by (simp add: analystsMap_of_def Let_def build_analystsMap_lookup)
  then show ?thesis
    unfolding resolve_analyst_def a p sentinel_analyst_def spec_identity_def .
qed

lemma group_analyst_fetched:
  assumes "conv \<in> set (map snd (analystConversations (groups st userId)))"
  shows "u_analyst_id conv \<in> c_analyst_id ` set (conversationData st userId)"
proof -
  from assms have "(u_analyst_id conv, conv) \<in> set (analystConversations (groups st userId))"
    unfolding groups_def by (rule group_member_key)
  then have "u_analyst_id conv \<in> set (map fst (analystConversations (groups st userId)))"
    by (metis fst_conv image_eqI set_map)
  then show ?thesis
    unfolding groups_def using grouping_keys[of "conversationData st userId"]
    by (simp only: allAnalystIds_set)
qed

lemma group_identity:
  assumes "\<not> unavailable st Analysts" and "\<not> unavailable st Profiles"
    and "conv \<in> set (map snd (analystConversations (groups st userId)))"
  shows "(case analystsMap_of st userId (u_analyst_id conv) of
            None \<Rightarrow> sentinel_analyst | Some info \<Rightarrow> info) = spec_identity st (u_analyst_id conv)"
  using analystsMap_of_identity[OF assms(1,2) group_analyst_fetched[OF assms(3)]] by simp

lemma unifiedConversation_identities:
  "map (\<lambda>ch. (pc_project_id ch, ca_name (pc_analyst ch), ca_avatar_url (pc_analyst ch)))
       (unifiedConversation am apps om acb lm um conv)
     = map (\<lambda>p. (pr_id p,
                  ai_name (case am (u_analyst_id conv) of None \<Rightarrow> sentinel_analyst | Some info \<Rightarrow> info),
                  ai_avatar_url (case am (u_analyst_id conv) of
                                   None \<Rightarrow> sentinel_analyst | Some info \<Rightarrow> info)))
         (formattedProjects apps om conv)"
  by (simp add: unifiedConversation_def Let_def to_project_chat_def comp_def)

section \<open>Applications and opportunities\<close>

lemma fold_keyed_lookup:
  assumes upd: "\<And>m x. upd m x = m(key x \<mapsto> x)"
  shows "distinct (map key xs) \<Longrightarrow>
           foldl upd Map.empty xs k = Some v \<longleftrightarrow> v \<in> set xs \<and> key v = k"
proof (induction xs rule: rev_induct)
  case Nil
  show ?case by simp
next
  case (snoc x xs)
  from snoc.prems have d: "distinct (map key xs)" and fresh: "key x \<notin> key ` set xs"
    by simp_all
  note IH = snoc.IH[OF d]
  have step: "foldl upd Map.empty (xs @ [x]) = (foldl upd Map.empty xs)(key x \<mapsto> x)"
    by (simp add: upd)
  show ?case
  proof (cases "key x = k")
    case True
    with fresh have "\<And>y. y \<in> set xs \<Longrightarrow> key y \<noteq> k" by (metis imageI)
    with True show ?thesis unfolding step by auto
  next
    case False
    with IH show ?thesis unfolding step by auto
  qed
qed

lemma opportunities_fold_lookup:
  "distinct (map o_id ops) \<Longrightarrow>
     foldl (\<lambda>m op. m(o_id op \<mapsto> op)) Map.empty ops oid = Some op \<longleftrightarrow> op \<in> set ops \<and> o_id op = oid"
  by (rule fold_keyed_lookup) (rule refl)

lemma applications_of_rows:
  "or_empty (applications_of st userId) =
     (if unavailable st OpportunityApplications then []
      else filter (\<lambda>app. app_creator_id app = userId \<and> app_status app = ''approved'')
             (t_opportunity_applications st))"
  by (simp add: applications_of_def select_applications_def)

lemma opportunitiesMap_of_lookup:
  assumes "\<not> unavailable st Opportunities" and "distinct (map o_id (t_opportunities st))"
    and "app \<in> set (or_empty (applications_of st userId))"
  shows "opportunitiesMap_of st userId (app_opportunity_id app) = Some op
           \<longleftrightarrow> op \<in> set (t_opportunities st) \<and> o_id op = app_opportunity_id app"
proof -
  let ?ids = "map app_opportunity_id (or_empty (applications_of st userId))"
  let ?rows = "filter (\<lambda>op. o_id op \<in> set ?ids) (t_opportunities st)"
  from assms(3) have mem: "app_opportunity_id app \<in> set ?ids" by auto
  then have ne: "?ids \<noteq> []" by auto
  have "opportunitiesMap_of st userId = foldl (\<lambda>m op. m(o_id op \<mapsto> op)) Map.empty ?rows"
    using ne assms(1)
    by (simp add: opportunitiesMap_of_def Let_def select_opportunities_def build_opportunitiesMap_def)
  moreover have "distinct (map o_id ?rows)" using assms(2) by (simp add: distinct_map_filter)
  ultimately have "opportunitiesMap_of st userId (app_opportunity_id app) = Some op
      \<longleftrightarrow> op \<in> set ?rows \<and> o_id op = app_opportunity_id app"
    by (simp only: opportunities_fold_lookup)
  with mem show ?thesis by auto
qed

lemma format_project_Some:
  "format_project om conv app \<noteq> None \<longleftrightarrow>
     (\<exists>op. om (app_opportunity_id app) = Some op \<and> o_analyst_id op = u_analyst_id conv)"
  by (auto simp: format_project_def split: option.splits)

lemma format_project_id: "format_project om conv app = Some p \<Longrightarrow> pr_id p = app_id app"
  by (auto simp: format_project_def split: option.splits if_splits)

lemma map_filter_ids:
  "map pr_id (List.map_filter (format_project om conv) apps)
     = map app_id (filter (\<lambda>app. format_project om conv app \<noteq> None) apps)"
  by (induction apps) (auto simp: List.map_filter_simps format_project_id split: option.splits)

lemma unifiedConversation_project_ids:
  "map pc_project_id (unifiedConversation am apps om acb lm um conv)
     = map app_id (filter (\<lambda>app. format_project om conv app \<noteq> None) (or_empty apps))"
proof -
  have "map pc_project_id (unifiedConversation am apps om acb lm um conv)
      = map pr_id (List.map_filter (format_project om conv) (or_empty apps))"
    by (simp add: unifiedConversation_def Let_def formattedProjects_def comp_def to_project_chat_def)
  then show ?thesis by (simp only: map_filter_ids)
qed

lemma fetchCreatorChats_concat:
  "fetchCreatorChats st userId
     = concat (map (chats_of_group st userId) (map snd (analystConversations (groups st userId))))"
proof (cases "unavailable st Conversations")
  case True
  then have "conversationData st userId = []"
    by (simp add: conversationData_def select_conversations_def)
  with True show ?thesis
    by (simp add: fetchCreatorChats_eq groups_def groupConversations_Nil empty_grouping_def)
next
  case False
  then show ?thesis by (simp add: fetchCreatorChats_eq)
qed

lemma distinct_concat_filter:
  assumes "distinct (map g apps)"
    and "\<And>c c' a. P c a \<Longrightarrow> P c' a \<Longrightarrow> key c = key c'"
  shows "distinct (map key convs) \<Longrightarrow> distinct (concat (map (\<lambda>c. map g (filter (P c) apps)) convs))"
proof (induction convs)
  case Nil
  show ?case by simp
next
  case (Cons c convs)
  have inj: "inj_on g (set apps)" using assms(1) by (simp add: distinct_map)
  have "distinct (map g (filter (P c) apps))"
    using assms(1) by (simp add: distinct_map_filter)
  moreover have "distinct (concat (map (\<lambda>c. map g (filter (P c) apps)) convs))"
    using Cons by simp
  moreover have "g a \<noteq> g a'"
    if "a \<in> set apps" "P c a" "c' \<in> set convs" "a' \<in> set apps" "P c' a'" for a a' c'
  proof
    assume "g a = g a'"
    with inj that have "a = a'" by (auto dest: inj_onD)
    with that assms(2)[of c a c'] have "key c = key c'" by simp
    with Cons.prems that(3) show False by auto
  qed
  ultimately show ?case by auto
qed

lemma group_analyst_ids:
  "map u_analyst_id (map snd (analystConversations (groupConversations convs)))
     = map fst (analystConversations (groupConversations convs))"
proof -
  have "\<And>e. e \<in> set (analystConversations (groupConversations convs)) \<Longrightarrow> u_analyst_id (snd e) = fst e"
  proof -
    fix e assume "e \<in> set (analystConversations (groupConversations convs))"
    then have "map_of (analystConversations (groupConversations convs)) (fst e) = Some (snd e)"
      using analystConversations_member[of "fst e" "snd e" convs] by simp
    then show "u_analyst_id (snd e) = fst e" by (rule analystConversations_analyst)
  qed
  then show ?thesis by (simp add: comp_def cong: map_cong)
qed

section \<open>Order of the groups\<close>

lemma desc_before_total: "desc_before x y \<or> desc_before y x"
  by (cases x; cases y) auto

lemma desc_before_trans: "desc_before x y \<Longrightarrow> desc_before y z \<Longrightarrow> desc_before x z"
  by (cases x; cases y; cases z) auto

lemma insert_desc_sorted:
  "sorted_wrt (\<lambda>a b. desc_before (c_last_message_at a) (c_last_message_at b)) ds
     \<Longrightarrow> sorted_wrt (\<lambda>a b. desc_before (c_last_message_at a) (c_last_message_at b)) (insert_desc c ds)"
proof (induction ds)
  case Nil
  show ?case by simp
next
  case (Cons d ds)
  show ?case
  proof (cases "desc_before (c_last_message_at c) (c_last_message_at d)")
    case True
    with Cons.prems show ?thesis by (auto intro: desc_before_trans)
  next
    case False
    then have "desc_before (c_last_message_at d) (c_last_message_at c)"
      using desc_before_total by blast
    with False Cons show ?thesis by (auto simp: insert_desc_set)
  qed
qed

lemma order_desc_sorted:
  "sorted_wrt (\<lambda>a b. desc_before (c_last_message_at a) (c_last_message_at b))
     (order_last_message_at_desc rows)"
  by (induction rows) (simp_all add: order_last_message_at_desc_def insert_desc_sorted)

lemma desc_before_le: "x \<noteq> None \<Longrightarrow> desc_before x y \<Longrightarrow> y \<le> x"
  by (cases x; cases y) auto

lemma conversationData_sorted:
  assumes "\<forall>c\<in>set (t_conversations st). c_creator_id c = userId \<longrightarrow> c_last_message_at c \<noteq> None"
  shows "sorted_wrt (\<lambda>a b. c_last_message_at b \<le> c_last_message_at a) (conversationData st userId)"
proof (cases "unavailable st Conversations")
  case True
  then show ?thesis by (simp add: conversationData_def select_conversations_def)
next
  case False
  let ?rows = "order_last_message_at_desc (filter (\<lambda>c. c_creator_id c = userId) (t_conversations st))"
  have nn: "\<forall>c\<in>set ?rows. c_last_message_at c \<noteq> None"
    using assms by (simp add: order_desc_set)
  have "sorted_wrt (\<lambda>a b. desc_before (c_last_message_at a) (c_last_message_at b)) ?rows"
    by (rule order_desc_sorted)
  then have "sorted_wrt (\<lambda>a b. c_last_message_at b \<le> c_last_message_at a) ?rows"
    by (rule sorted_wrt_mono_rel[rotated]) (use nn in \<open>auto intro: desc_before_le\<close>)
  with False show ?thesis by (simp add: conversationData_def select_conversations_def)
qed

lemma conversationData_ordered: "desc_ordered (conversationData st userId)"
  by (simp add: desc_ordered_def conversationData_def select_conversations_def order_desc_sorted)

lemma update_absent: "k \<notin> fst ` set al \<Longrightarrow> AList.update k v al = al @ [(k, v)]"
  by (induction al) auto

lemma is_canonical_last_message_at:
  "is_canonical g u \<Longrightarrow> u_last_message_at u \<in> c_last_message_at ` set g"
  unfolding is_canonical_def by auto

lemma groups_sorted:
  "desc_ordered convs \<Longrightarrow> sorted_wrt (\<lambda>a b. c_last_message_at b \<le> c_last_message_at a) convs
     \<Longrightarrow> sorted_wrt (\<lambda>u v. u_last_message_at v \<le> u_last_message_at u)
           (map snd (analystConversations (groupConversations convs)))"
proof (induction convs rule: rev_induct)
  case Nil
  show ?case by (simp add: groupConversations_Nil empty_grouping_def)
next
  case (snoc c convs)
  let ?G = "groupConversations convs"
  let ?k = "c_analyst_id c"
  from snoc.prems(1) have ord: "desc_ordered convs"
    by (simp add: desc_ordered_def sorted_wrt_append)
  from snoc.prems(2) have srt: "sorted_wrt (\<lambda>a b. c_last_message_at b \<le> c_last_message_at a) convs"
    and low: "\<forall>x\<in>set convs. c_last_message_at c \<le> c_last_message_at x"
    by (simp_all add: sorted_wrt_append)
  note IH = snoc.IH[OF ord srt]
  have old: "c_last_message_at c \<le> u_last_message_at u"
    if "u \<in> set (map snd (analystConversations ?G))" for u
  proof -
    from group_member_canonical[OF ord that]
    have "u_last_message_at u \<in> c_last_message_at ` set (group_of (u_analyst_id u) convs)"
      by (rule is_canonical_last_message_at)
    with low group_of_subset[of "u_analyst_id u" convs] show ?thesis by auto
  qed
  show ?case
  proof (cases "map_of (analystConversations ?G) ?k")
    case None
    then have "?k \<notin> fst ` set (analystConversations ?G)"
      by (simp add: map_of_eq_None_iff)
    with None have "analystConversations (groupConversations (convs @ [c]))
        = analystConversations ?G @ [(?k, seed_conversation c)]"
      by (simp add: groupConversations_snoc group_conv_fields update_absent)
    moreover have "u_last_message_at (seed_conversation c) = c_last_message_at c"
      by (simp add: seed_conversation_def)
    ultimately show ?thesis using IH old by (simp add: sorted_wrt_append)
  next
    case (Some ex)
    then have "ex \<in> set (map snd (analystConversations ?G))"
      by (auto dest!: map_of_SomeD intro: rev_image_eqI)
    from old[OF this] have "\<not> more_recent (c_last_message_at c) (u_last_message_at ex)"
      by (rule not_more_recent)
    with Some have "analystConversations (groupConversations (convs @ [c])) = analystConversations ?G"
      by (simp add: groupConversations_snoc group_conv_fields)
    with IH show ?thesis by simp
  qed
qed

lemma sorted_wrt_all: "(\<And>x y. x \<in> set xs \<Longrightarrow> y \<in> set xs \<Longrightarrow> R x y) \<Longrightarrow> sorted_wrt R xs"
  by (induction xs) auto

lemma concat_sorted:
  assumes "\<And>c ch. ch \<in> set (f c) \<Longrightarrow> key ch = gkey c"
  shows "sorted_wrt (\<lambda>u v. gkey v \<le> gkey u) cs
           \<Longrightarrow> sorted_wrt (\<lambda>a b. key b \<le> (key a :: 'k :: preorder)) (concat (map f cs))"
proof (induction cs)
  case Nil
  show ?case by simp
next
  case (Cons c cs)
  have "sorted_wrt (\<lambda>a b. key b \<le> key a) (f c)"
    using assms[of _ c] by (intro sorted_wrt_all) simp
  with Cons assms show ?case by (auto simp: sorted_wrt_append)
qed

lemma allAnalystIds_first_sighting:
  "allAnalystIds (groupConversations convs) = rev (remdups (rev (map c_analyst_id convs)))"
proof (induction convs rule: rev_induct)
  case Nil
  show ?case by (simp add: groupConversations_Nil empty_grouping_def)
next
  case (snoc c convs)
  have "set (allAnalystIds (groupConversations convs)) = c_analyst_id ` set convs"
    by (rule allAnalystIds_set)
  with snoc show ?case
    by (simp add: groupConversations_snoc group_conv_fields set_add_def)
qed

section \<open>Failing operations\<close>

lemma recover_select:
  "op \<noteq> Conversations \<Longrightarrow> select_conversations (recover op st) = select_conversations st"
  "op \<noteq> Analysts \<Longrightarrow> select_analysts (recover op st) = select_analysts st"
  "op \<noteq> Profiles \<Longrightarrow> select_profiles (recover op st) = select_profiles st"
  "op \<noteq> OpportunityApplications \<Longrightarrow> select_applications (recover op st) = select_applications st"
  "op \<noteq> Opportunities \<Longrightarrow> select_opportunities (recover op st) = select_opportunities st"
  "op \<noteq> Messages \<Longrightarrow> select_unread_messages (recover op st) = select_unread_messages st"
  "op \<noteq> GetLatestMessages \<Longrightarrow> rpc_get_latest_messages (recover op st) = rpc_get_latest_messages st"
  by (simp_all add: fun_eq_iff recover_def select_conversations_def select_analysts_def
      select_profiles_def select_applications_def select_opportunities_def
      select_unread_messages_def rpc_get_latest_messages_def)

lemma recover_conversationData:
  "op \<noteq> Conversations \<Longrightarrow> conversationData (recover op st) userId = conversationData st userId"
  by (simp add: conversationData_def recover_select)

lemma recover_groups:
  "op \<noteq> Conversations \<Longrightarrow> groups (recover op st) userId = groups st userId"
  by (simp add: groups_def recover_conversationData)

lemma recover_allConvIds:
  "op \<noteq> Conversations \<Longrightarrow> allConvIds_of (recover op st) userId = allConvIds_of st userId"
  by (simp add: Let_def allConvIds_of_def recover_groups)

lemma recover_analystsMap:
  "op \<noteq> Conversations \<Longrightarrow> op \<noteq> Analysts \<Longrightarrow> op \<noteq> Profiles
     \<Longrightarrow> analystsMap_of (recover op st) userId = analystsMap_of st userId"
  by (simp add: Let_def analystsMap_of_def recover_groups recover_select)

lemma recover_applications:
  "op \<noteq> OpportunityApplications \<Longrightarrow> applications_of (recover op st) userId = applications_of st userId"
  by (simp add: Let_def applications_of_def recover_select)

lemma recover_opportunitiesMap:
  "op \<noteq> OpportunityApplications \<Longrightarrow> op \<noteq> Opportunities
     \<Longrightarrow> opportunitiesMap_of (recover op st) userId = opportunitiesMap_of st userId"
  by (simp add: Let_def opportunitiesMap_of_def recover_applications recover_select)

lemma recover_unreadCountsMap:
  "op \<noteq> Conversations \<Longrightarrow> op \<noteq> Messages
     \<Longrightarrow> unreadCountsMap_of (recover op st) userId = unreadCountsMap_of st userId"
  by (simp add: Let_def unreadCountsMap_of_def recover_allConvIds recover_select)

lemma recover_latestMessagesMap:
  "op \<noteq> Conversations \<Longrightarrow> op \<noteq> GetLatestMessages
     \<Longrightarrow> latestMessagesMap_of (recover op st) userId = latestMessagesMap_of st userId"
  by (simp add: Let_def latestMessagesMap_of_def recover_allConvIds recover_select)

lemma latestMessagesMap_of_down:
  "unavailable st GetLatestMessages \<Longrightarrow> latestMessagesMap_of st userId = Map.empty"
  by (simp add: latestMessagesMap_of_def Let_def rpc_get_latest_messages_def build_latestMessagesMap_def)

lemma unreadCountsMap_of_down:
  "unavailable st Messages \<Longrightarrow> unreadCountsMap_of st userId = Map.empty"
  by (simp add: unreadCountsMap_of_def Let_def select_unread_messages_def build_unreadCountsMap_def)

lemma find_lastMessage_empty: "find_lastMessage Map.empty ids = None"
  by (simp only: find_lastMessage_None) simp

lemma count_unread_empty: "count_unread Map.empty ids = 0"
  by (simp add: count_unread_sum count_or_zero_def)

lemma unifiedConversation_lastMessage:
  "unifiedConversation am apps om acb lm um conv
     = map (\<lambda>ch. ch \<lparr> pc_lastMessage :=
              find_lastMessage lm (case map_of acb (u_analyst_id conv) of None \<Rightarrow> [] | Some ids \<Rightarrow> ids) \<rparr>)
         (unifiedConversation am apps om acb lm' um conv)"
  by (simp add: unifiedConversation_def Let_def to_project_chat_def)

lemma unifiedConversation_unread:
  "unifiedConversation am apps om acb lm um conv
     = map (\<lambda>ch. ch \<lparr> pc_unread_count :=
              count_unread um (case map_of acb (u_analyst_id conv) of None \<Rightarrow> [] | Some ids \<Rightarrow> ids) \<rparr>)
         (unifiedConversation am apps om acb lm um' conv)"
  by (simp add: unifiedConversation_def Let_def to_project_chat_def)

lemma chats_latest_down:
  assumes "unavailable st GetLatestMessages"
  shows "fetchCreatorChats st userId
           = map (\<lambda>ch. ch \<lparr> pc_lastMessage := None \<rparr>) (fetchCreatorChats (recover GetLatestMessages st) userId)"
proof -
  have "chats_of_group st userId conv
      = map (\<lambda>ch. ch \<lparr> pc_lastMessage := None \<rparr>) (chats_of_group (recover GetLatestMessages st) userId conv)"
    for conv
    unfolding chats_of_group_def latestMessagesMap_of_down[OF assms]
    by (subst unifiedConversation_lastMessage[where lm' = "latestMessagesMap_of (recover GetLatestMessages st) userId"])
       (simp add: find_lastMessage_empty recover_groups recover_analystsMap recover_applications
          recover_opportunitiesMap recover_unreadCountsMap)
  then show ?thesis
    by (simp add: fetchCreatorChats_concat recover_groups map_concat comp_def)
qed

lemma chats_unread_down:
  assumes "unavailable st Messages"
  shows "fetchCreatorChats st userId
           = map (\<lambda>ch. ch \<lparr> pc_unread_count := 0 \<rparr>) (fetchCreatorChats (recover Messages st) userId)"
proof -
  have "chats_of_group st userId conv
      = map (\<lambda>ch. ch \<lparr> pc_unread_count := 0 \<rparr>) (chats_of_group (recover Messages st) userId conv)"
    for conv
    unfolding chats_of_group_def unreadCountsMap_of_down[OF assms]
    by (subst unifiedConversation_unread[where um' = "unreadCountsMap_of (recover Messages st) userId"])
       (simp add: count_unread_empty recover_groups recover_analystsMap recover_applications
          recover_opportunitiesMap recover_latestMessagesMap)
  then show ?thesis
    by (simp add: fetchCreatorChats_concat recover_groups map_concat comp_def)
qed

lemma chats_applications_down:
  assumes "unavailable st OpportunityApplications \<or> unavailable st Opportunities"
  shows "fetchCreatorChats st userId = []"
proof -
  have "format_project (opportunitiesMap_of st userId) conv app = None"
    if "app \<in> set (or_empty (applications_of st userId))" for conv app
  proof -
    from that have "\<not> unavailable st OpportunityApplications"
      by (auto simp: applications_of_rows split: if_splits)
    with assms have "unavailable st Opportunities" by simp
    then have "opportunitiesMap_of st userId = Map.empty"
      by (simp add: opportunitiesMap_of_def Let_def select_opportunities_def build_opportunitiesMap_def)
    then show ?thesis by (simp add: format_project_def)
  qed
  then have "chats_of_group st userId conv = []" for conv
    by (simp add: chats_of_group_def unifiedConversation_def Let_def formattedProjects_def
        List.map_filter_def filter_empty_conv)
  then show ?thesis by (simp add: fetchCreatorChats_concat)
qed

lemma unifiedConversation_identity:
  "unifiedConversation am apps om acb lm um conv
     = map (\<lambda>ch. ch \<lparr> pc_analyst := (pc_analyst ch)
              \<lparr> ca_name := ai_name (case am (u_analyst_id conv) of
                                      None \<Rightarrow> sentinel_analyst | Some info \<Rightarrow> info),
                ca_avatar_url := ai_avatar_url (case am (u_analyst_id conv) of
                                      None \<Rightarrow> sentinel_analyst | Some info \<Rightarrow> info) \<rparr> \<rparr>)
         (unifiedConversation am' apps om acb lm um conv)"
  by (simp add: unifiedConversation_def Let_def to_project_chat_def)

lemma analystsMap_of_down:
  assumes "unavailable st Analysts" and "unavailable st Profiles"
  shows "(case analystsMap_of st userId k of None \<Rightarrow> sentinel_analyst | Some info \<Rightarrow> info)
           = sentinel_analyst"
proof -
  have "analystsMap_of st userId k = None \<or> analystsMap_of st userId k = Some sentinel_analyst"
    using assms
    by (simp add: analystsMap_of_def Let_def build_analystsMap_lookup select_analysts_def
        select_profiles_def resolve_analyst_def find_opt_def)
  then show ?thesis by (auto split: option.splits)
qed

lemma chats_identity_down:
  assumes "unavailable st Analysts" and "unavailable st Profiles"
  shows "fetchCreatorChats st userId
           = map (\<lambda>ch. ch \<lparr> pc_analyst := (pc_analyst ch) \<lparr> ca_name := ''Analista'', ca_avatar_url := None \<rparr> \<rparr>)
               (fetchCreatorChats (recover Analysts (recover Profiles st)) userId)"
proof -
  let ?st = "recover Analysts (recover Profiles st)"
  have "chats_of_group st userId conv
      = map (\<lambda>ch. ch \<lparr> pc_analyst := (pc_analyst ch) \<lparr> ca_name := ''Analista'', ca_avatar_url := None \<rparr> \<rparr>)
          (chats_of_group ?st userId conv)"
    for conv
    unfolding chats_of_group_def
    by (subst unifiedConversation_identity[where am' = "analystsMap_of ?st userId"])
       (simp add: analystsMap_of_down[OF assms] sentinel_analyst_def recover_groups recover_applications
          recover_opportunitiesMap recover_unreadCountsMap recover_latestMessagesMap)
  then show ?thesis
    by (simp add: fetchCreatorChats_concat recover_groups map_concat comp_def)
qed

lemma source_conversationData:
  "conversationData (st \<lparr> t_analysts := as \<rparr>) userId = conversationData st userId"
  "conversationData (st \<lparr> t_profiles := ps \<rparr>) userId = conversationData st userId"
  by (simp_all add: conversationData_def select_conversations_def)

lemma source_groups:
  "groups (st \<lparr> t_analysts := as \<rparr>) userId = groups st userId"
  "groups (st \<lparr> t_profiles := ps \<rparr>) userId = groups st userId"
  by (simp_all add: groups_def source_conversationData)

lemma source_views:
  "applications_of (st \<lparr> t_analysts := as \<rparr>) userId = applications_of st userId"
  "applications_of (st \<lparr> t_profiles := ps \<rparr>) userId = applications_of st userId"
  "opportunitiesMap_of (st \<lparr> t_analysts := as \<rparr>) userId = opportunitiesMap_of st userId"
  "opportunitiesMap_of (st \<lparr> t_profiles := ps \<rparr>) userId = opportunitiesMap_of st userId"
  "unreadCountsMap_of (st \<lparr> t_analysts := as \<rparr>) userId = unreadCountsMap_of st userId"
  "unreadCountsMap_of (st \<lparr> t_profiles := ps \<rparr>) userId = unreadCountsMap_of st userId"
  "latestMessagesMap_of (st \<lparr> t_analysts := as \<rparr>) userId = latestMessagesMap_of st userId"
  "latestMessagesMap_of (st \<lparr> t_profiles := ps \<rparr>) userId = latestMessagesMap_of st userId"
  by (simp_all add: applications_of_def opportunitiesMap_of_def unreadCountsMap_of_def
      latestMessagesMap_of_def allConvIds_of_def source_groups Let_def select_applications_def
      select_opportunities_def select_unread_messages_def rpc_get_latest_messages_def)

lemma find_opt_no_rows: "find_opt p (Some []) = find_opt p None"
  by (simp add: find_opt_def)

lemma resolve_analyst_no_rows:
  "resolve_analyst None profiles aid = resolve_analyst (Some []) profiles aid"
  "resolve_analyst analysts None aid = resolve_analyst analysts (Some []) aid"
  unfolding resolve_analyst_def find_opt_no_rows by (rule refl)+

lemma build_analystsMap_no_rows:
  "build_analystsMap None profiles ids = build_analystsMap (Some []) profiles ids"
  "build_analystsMap analysts None ids = build_analystsMap analysts (Some []) ids"
  by (simp_all add: fun_eq_iff build_analystsMap_lookup resolve_analyst_no_rows[symmetric])

lemma analystsMap_of_analysts_down:
  assumes "unavailable st Analysts"
  shows "analystsMap_of (recover Analysts (st \<lparr> t_analysts := [] \<rparr>)) userId = analystsMap_of st userId"
  using assms
  by (simp add: analystsMap_of_def Let_def recover_groups source_groups recover_select
      build_analystsMap_no_rows(1)[symmetric])
     (simp add: select_analysts_def select_profiles_def recover_def build_analystsMap_no_rows(1))

lemma analystsMap_of_profiles_down:
  assumes "unavailable st Profiles"
  shows "analystsMap_of (recover Profiles (st \<lparr> t_profiles := [] \<rparr>)) userId = analystsMap_of st userId"
  using assms
  by (simp add: analystsMap_of_def Let_def recover_groups source_groups recover_select)
     (simp add: select_analysts_def select_profiles_def recover_def build_analystsMap_no_rows(2))

lemma chats_analysts_down:
  assumes "unavailable st Analysts"
  shows "fetchCreatorChats st userId = fetchCreatorChats (recover Analysts (st \<lparr> t_analysts := [] \<rparr>)) userId"
proof -
  have "chats_of_group (recover Analysts (st \<lparr> t_analysts := [] \<rparr>)) userId = chats_of_group st userId"
    by (simp add: fun_eq_iff chats_of_group_def analystsMap_of_analysts_down[OF assms] recover_groups
        recover_applications recover_opportunitiesMap recover_unreadCountsMap
        recover_latestMessagesMap source_groups source_views)
  then show ?thesis
    by (simp add: fetchCreatorChats_concat recover_groups source_groups)
qed

lemma chats_profiles_down:
  assumes "unavailable st Profiles"
  shows "fetchCreatorChats st userId = fetchCreatorChats (recover Profiles (st \<lparr> t_profiles := [] \<rparr>)) userId"
proof -
  have "chats_of_group (recover Profiles (st \<lparr> t_profiles := [] \<rparr>)) userId = chats_of_group st userId"
    by (simp add: fun_eq_iff chats_of_group_def analystsMap_of_profiles_down[OF assms] recover_groups
        recover_applications recover_opportunitiesMap recover_unreadCountsMap
        recover_latestMessagesMap source_groups source_views)
  then show ?thesis
    by (simp add: fetchCreatorChats_concat recover_groups source_groups)
qed

section \<open>Claim C1\<close>

text \<open>
  C1, as stated, fails on its tie-break. In \<open>tie_store\<close> analyst \<open>A\<close> has two
  conversations with the same \<open>last_message_at\<close>: \<open>c2\<close>, created at 1 and
  returned first, and \<open>c1\<close>, created at 2. The code keeps \<open>c2\<close>, the first
  one it sees, while each of the claim's two rules (most recently created,
  smallest id) picks \<open>c1\<close>.
\<close>

theorem C1_counterexample:
  "map pc_conversation_id (fetchCreatorChats tie_store ''creator'') = [''c2'']
   \<and> map_option c_id (spec_canonical_thread (group_of ''A'' (conversationData tie_store ''creator'')))
       = Some ''c1''
   \<and> map_option c_id (spec_canonical_thread_by_id (group_of ''A'' (conversationData tie_store ''creator'')))
       = Some ''c1''"
  by code_simp

text \<open>
  C1, amended: every chat emitted for a counterpart carries the id, the
  \<open>last_message_at\<close>, the custom title and the tags of one conversation \<open>c\<close>
  of that counterpart's group (the fetched conversations with that analyst, in
  the order the store returned them) such that every conversation before \<open>c\<close>
  in the group is strictly older and no conversation after it is newer,
  \<open>null\<close> counting as older than every date. So the canonical thread has the
  most recent \<open>last_message_at\<close> of the group, and among several such threads
  it is the first of the store's answer, whatever their creation dates and
  ids. The title passes through \<open>|| null\<close> and the tags through \<open>|| []\<close>.
\<close>

theorem C1_canonical_thread:
  assumes "ch \<in> set (fetchCreatorChats st userId)"
  shows "\<exists>pre c post.
           group_of (co_analyst_id (pc_opportunity ch)) (conversationData st userId) = pre @ c # post
         \<and> (\<forall>x\<in>set pre. c_last_message_at x < c_last_message_at c)
         \<and> (\<forall>x\<in>set post. c_last_message_at x \<le> c_last_message_at c)
         \<and> pc_conversation_id ch = c_id c
         \<and> pc_last_message_at ch = c_last_message_at c
         \<and> pc_custom_title ch = title_or_null (c_custom_title c)
         \<and> pc_tags ch = or_empty (c_tags c)"
proof -
  from assms obtain conv where conv: "conv \<in> set (map snd (analystConversations (groups st userId)))"
    and ch: "ch \<in> set (chats_of_group st userId conv)"
    by (rule fetchCreatorChats_member)
  from conv have "is_canonical (group_of (u_analyst_id conv) (conversationData st userId)) conv"
    unfolding groups_def by (rule group_member_canonical[OF conversationData_ordered])
  then obtain pre c post
    where split: "group_of (u_analyst_id conv) (conversationData st userId) = pre @ c # post"
      and older: "\<forall>x\<in>set pre. c_last_message_at x < c_last_message_at c"
      and not_newer: "\<forall>x\<in>set post. c_last_message_at x \<le> c_last_message_at c"
      and meta: "u_id conv = c_id c" "u_last_message_at conv = c_last_message_at c"
        "u_custom_title conv = c_custom_title c" "u_tags conv = c_tags c"
    unfolding is_canonical_def by blast
  from ch have fields: "pc_conversation_id ch = u_id conv"
    "pc_last_message_at ch = u_last_message_at conv"
    "pc_custom_title ch = title_or_null (u_custom_title conv)"
    "pc_tags ch = or_empty (u_tags conv)"
    "co_analyst_id (pc_opportunity ch) = u_analyst_id conv"
    unfolding chats_of_group_def by (rule unifiedConversation_fields)+
  show ?thesis
    using split older not_newer meta fields
    by (intro exI[of _ pre] exI[of _ c] exI[of _ post]) simp
qed

text \<open>
  C1, witness: the chat of the scenario, whose group is \<open>A1\<close>, \<open>A2\<close>.
\<close>

theorem C1_witness:
  "scenario_chat \<in> set (fetchCreatorChats scenario_store ''creator'')
   \<and> (\<exists>pre c post.
           group_of (co_analyst_id (pc_opportunity scenario_chat)) (conversationData scenario_store ''creator'')
             = pre @ c # post
         \<and> (\<forall>x\<in>set pre. c_last_message_at x < c_last_message_at c)
         \<and> (\<forall>x\<in>set post. c_last_message_at x \<le> c_last_message_at c)
         \<and> pc_conversation_id scenario_chat = c_id c
         \<and> pc_last_message_at scenario_chat = c_last_message_at c
         \<and> pc_custom_title scenario_chat = title_or_null (c_custom_title c)
         \<and> pc_tags scenario_chat = or_empty (c_tags c))"
proof -
  have h: "scenario_chat \<in> set (fetchCreatorChats scenario_store ''creator'')"
    by code_simp
  from C1_canonical_thread[OF h] h show ?thesis by blast
qed

section \<open>Claim C2\<close>

text \<open>
  C2, as stated, fails: the claim allows at most one operation that is keyed
  by ids produced by an earlier query. On the scenario store the request
  issues seven operations, and five of them (analysts, profiles,
  opportunities, unread messages, latest messages) are filtered by ids read
  from the rows of the conversations or applications query.
\<close>

theorem C2_counterexample:
  "store_calls scenario_store ''creator'' =
     [SelectConversations ''creator'', SelectAnalysts [''A'', ''B''], SelectProfiles [''A'', ''B''],
      SelectApplications ''creator'', SelectOpportunities [''W1''],
      SelectUnreadMessages [''A1'', ''A2'', ''B1''] ''creator'',
      RpcGetLatestMessages [''A1'', ''A2'', ''B1'']]
   \<and> length (filter uses_fetched_ids (store_calls scenario_store ''creator'')) = 5
   \<and> \<not> length (filter uses_fetched_ids (store_calls scenario_store ''creator'')) \<le> 1"
  by code_simp

text \<open>
  C2, amended: for every store and actor, one call of \<open>fetchCreatorChats\<close>
  issues at most 7 bulk operations, whatever the number of rows; at most 5 of
  them are keyed by a list of ids, and every such list is made of the analyst
  ids or the conversation ids of the rows the conversations query returned,
  or of the opportunity ids of the rows the applications query returned,
  earlier in the same request.
\<close>

theorem C2_bulk_operations:
  "length (store_calls st userId) \<le> 7
   \<and> length (filter uses_fetched_ids (store_calls st userId)) \<le> 5
   \<and> (\<forall>call\<in>set (store_calls st userId). \<forall>ids. ids_argument call = Some ids \<longrightarrow>
         set ids = c_analyst_id ` set (conversationData st userId)
         \<or> set ids = app_opportunity_id ` set (or_empty (applications_of st userId))
         \<or> set ids = c_id ` set (conversationData st userId))"
proof (intro conjI ballI allI impI)
  show "length (store_calls st userId) \<le> 7"
    by (simp add: store_calls_eq)
  show "length (filter uses_fetched_ids (store_calls st userId)) \<le> 5"
    by (simp add: store_calls_eq uses_fetched_ids_def)
next
  fix call ids
  assume "call \<in> set (store_calls st userId)" and "ids_argument call = Some ids"
  then have "ids = allAnalystIds (groups st userId)
       \<or> ids = map app_opportunity_id (or_empty (applications_of st userId))
       \<or> ids = allConvIds_of st userId"
    by (rule store_calls_ids)
  moreover have "set (allAnalystIds (groups st userId)) = c_analyst_id ` set (conversationData st userId)"
    unfolding groups_def by (rule allAnalystIds_set)
  moreover have "set (allConvIds_of st userId) = c_id ` set (conversationData st userId)"
    unfolding allConvIds_of_def groups_def by (rule allConvIds_set)
  ultimately show "set ids = c_analyst_id ` set (conversationData st userId)
         \<or> set ids = app_opportunity_id ` set (or_empty (applications_of st userId))
         \<or> set ids = c_id ` set (conversationData st userId)"
    by auto
qed

text \<open>
  C2, witness: the analysts query of the scenario is keyed by the analyst ids
  of the conversations fetched before it.
\<close>

theorem C2_witness:
  "SelectAnalysts [''A'', ''B''] \<in> set (store_calls scenario_store ''creator'')
   \<and> ids_argument (SelectAnalysts [''A'', ''B'']) = Some [''A'', ''B'']
   \<and> c_analyst_id ` set (conversationData scenario_store ''creator'') = {''A'', ''B''}
   \<and> app_opportunity_id ` set (or_empty (applications_of scenario_store ''creator'')) = {''W1''}
   \<and> c_id ` set (conversationData scenario_store ''creator'') = {''A1'', ''A2'', ''B1''}
   \<and> (set [''A'', ''B''] = c_analyst_id ` set (conversationData scenario_store ''creator'')
        \<or> set [''A'', ''B''] = app_opportunity_id ` set (or_empty (applications_of scenario_store ''creator''))
        \<or> set [''A'', ''B''] = c_id ` set (conversationData scenario_store ''creator''))
   \<and> length (store_calls scenario_store ''creator'') \<le> 7"
proof -
  have h1: "SelectAnalysts [''A'', ''B''] \<in> set (store_calls scenario_store ''creator'')" by code_simp
  have h2: "ids_argument (SelectAnalysts [''A'', ''B'']) = Some [''A'', ''B'']" by simp
  have v: "c_analyst_id ` set (conversationData scenario_store ''creator'') = {''A'', ''B''}"
    "app_opportunity_id ` set (or_empty (applications_of scenario_store ''creator'')) = {''W1''}"
    "c_id ` set (conversationData scenario_store ''creator'') = {''A1'', ''A2'', ''B1''}"
    by code_simp+
  from C2_bulk_operations[of scenario_store "''creator''"] h1 h2 v show ?thesis by blast
qed

section \<open>Claim C3\<close>

text \<open>
  C3: the \<open>unread_count\<close> of every chat emitted for a counterpart group is the
  number of messages whose conversation belongs to the group, whose \<open>read\<close>
  flag is false and whose sender is not the actor; it is also the sum, over
  the conversation ids of the group, of the per-conversation counts. The
  conversation ids are unique (the primary key of the table), and the unread
  query is answered by the store.
\<close>

theorem C3_unread_count:
  assumes "distinct (map c_id (t_conversations st))"
    and "\<not> unavailable st Messages"
    and "ch \<in> set (fetchCreatorChats st userId)"
  shows "pc_unread_count ch =
           length (filter (\<lambda>m. m_conversation_id m
                                  \<in> c_id ` set (group_of (co_analyst_id (pc_opportunity ch))
                                                   (conversationData st userId))
                                \<and> \<not> m_read m \<and> m_sender_id m \<noteq> userId) (t_messages st))
         \<and> pc_unread_count ch =
           sum_list (map (\<lambda>cid. length (filter (\<lambda>m. m_conversation_id m = cid \<and> \<not> m_read m
                                                        \<and> m_sender_id m \<noteq> userId) (t_messages st)))
             (map c_id (group_of (co_analyst_id (pc_opportunity ch)) (conversationData st userId))))"
proof -
  let ?convs = "conversationData st userId"
  from assms(3) obtain conv where conv: "conv \<in> set (map snd (analystConversations (groups st userId)))"
    and ch: "ch \<in> set (chats_of_group st userId conv)"
    by (rule fetchCreatorChats_member)
  let ?ids = "map c_id (group_of (u_analyst_id conv) ?convs)"
  from ch have k: "co_analyst_id (pc_opportunity ch) = u_analyst_id conv"
    and n: "pc_unread_count ch = count_unread (unreadCountsMap_of st userId)
        (case map_of (allConversationsByAnalyst (groups st userId)) (u_analyst_id conv) of
           None \<Rightarrow> [] | Some ids \<Rightarrow> ids)"
    unfolding chats_of_group_def by (rule unifiedConversation_fields)+
  from conv have ids: "(case map_of (allConversationsByAnalyst (groups st userId)) (u_analyst_id conv) of
           None \<Rightarrow> [] | Some ids \<Rightarrow> ids) = ?ids"
    unfolding groups_def by (rule group_ids)
  have sub: "set ?ids \<subseteq> set (allConvIds_of st userId)"
    using group_of_subset[of "u_analyst_id conv" ?convs]
    unfolding allConvIds_of_def groups_def allConvIds_set by auto
  have dist: "distinct ?ids"
    using assms(1) by (intro group_of_distinct conversationData_distinct)
  have per: "map (count_or_zero (unreadCountsMap_of st userId)) ?ids
      = map (\<lambda>cid. length (filter (\<lambda>m. m_conversation_id m = cid \<and> \<not> m_read m
                                   \<and> m_sender_id m \<noteq> userId) (t_messages st))) ?ids"
    using sub unreadCountsMap_of_count[OF assms(2)] by (intro map_cong) auto
  have total: "pc_unread_count ch
      = sum_list (map (\<lambda>cid. length (filter (\<lambda>m. m_conversation_id m = cid \<and> \<not> m_read m
                                   \<and> m_sender_id m \<noteq> userId) (t_messages st))) ?ids)"
    unfolding n ids count_unread_sum per by (rule refl)
  also have "\<dots> = length (filter (\<lambda>m. m_conversation_id m \<in> set ?ids
                                \<and> \<not> m_read m \<and> m_sender_id m \<noteq> userId) (t_messages st))"
    using dist by (rule sum_per_thread)
  finally show ?thesis using total k by simp
qed

text \<open>
  C3, witness: the chat of the scenario, with one unread message in \<open>A1\<close> and
  two in \<open>A2\<close>.
\<close>

theorem C3_witness:
  "distinct (map c_id (t_conversations scenario_store))
   \<and> \<not> unavailable scenario_store Messages
   \<and> scenario_chat \<in> set (fetchCreatorChats scenario_store ''creator'')
   \<and> pc_unread_count scenario_chat = 3
   \<and> pc_unread_count scenario_chat =
           length (filter (\<lambda>m. m_conversation_id m
                                  \<in> c_id ` set (group_of (co_analyst_id (pc_opportunity scenario_chat))
                                                   (conversationData scenario_store ''creator''))
                                \<and> \<not> m_read m \<and> m_sender_id m \<noteq> ''creator'')
                     (t_messages scenario_store))"
proof -
  have h1: "distinct (map c_id (t_conversations scenario_store))" by code_simp
  have h2: "\<not> unavailable scenario_store Messages" by code_simp
  have h3: "scenario_chat \<in> set (fetchCreatorChats scenario_store ''creator'')" by code_simp
  have h4: "pc_unread_count scenario_chat = 3" by code_simp
  from C3_unread_count[OF h1 h2 h3] h1 h2 h3 h4 show ?thesis by blast
qed

section \<open>Claim C4\<close>




section \<open>Claim C5\<close>

text \<open>
  C5: the result is the concatenation, over the counterpart groups, of the
  chats of each group; the chats of a group are, in order, the approved
  applications of the actor whose opportunity is found in the store and has
  the group's analyst as its \<open>analyst_id\<close>, one chat per such application; and
  every chat of a group names that group's analyst. Hence an application
  whose opportunity is missing yields nothing, an application of another
  analyst never enters a group, and a group without such an application
  yields no chat. Opportunity ids are unique (the primary key), and the two
  queries are answered by the store.
\<close>

theorem C5_emission:
  assumes "\<not> unavailable st OpportunityApplications" and "\<not> unavailable st Opportunities"
    and "distinct (map o_id (t_opportunities st))"
  shows "fetchCreatorChats st userId
           = concat (map (chats_of_group st userId) (map snd (analystConversations (groups st userId))))
       \<and> (\<forall>conv. map pc_project_id (chats_of_group st userId conv)
             = map app_id
                 (filter (\<lambda>app. \<exists>op\<in>set (t_opportunities st).
                            o_id op = app_opportunity_id app \<and> o_analyst_id op = u_analyst_id conv)
                    (filter (\<lambda>app. app_creator_id app = userId \<and> app_status app = ''approved'')
                       (t_opportunity_applications st))))
       \<and> (\<forall>conv. \<forall>ch\<in>set (chats_of_group st userId conv).
             co_analyst_id (pc_opportunity ch) = u_analyst_id conv)"
proof (intro conjI allI ballI)
  show "fetchCreatorChats st userId
           = concat (map (chats_of_group st userId) (map snd (analystConversations (groups st userId))))"
    by (rule fetchCreatorChats_concat)
next
  fix conv
  let ?apps = "or_empty (applications_of st userId)"
  have "filter (\<lambda>app. format_project (opportunitiesMap_of st userId) conv app \<noteq> None) ?apps
      = filter (\<lambda>app. \<exists>op\<in>set (t_opportunities st).
                  o_id op = app_opportunity_id app \<and> o_analyst_id op = u_analyst_id conv) ?apps"
  proof (intro filter_cong refl)
    fix app assume "app \<in> set ?apps"
    from opportunitiesMap_of_lookup[OF assms(2,3) this]
    show "(format_project (opportunitiesMap_of st userId) conv app \<noteq> None)
        = (\<exists>op\<in>set (t_opportunities st).
             o_id op = app_opportunity_id app \<and> o_analyst_id op = u_analyst_id conv)"
      unfolding format_project_Some by blast
  qed
  then show "map pc_project_id (chats_of_group st userId conv)
             = map app_id
                 (filter (\<lambda>app. \<exists>op\<in>set (t_opportunities st).
                            o_id op = app_opportunity_id app \<and> o_analyst_id op = u_analyst_id conv)
                    (filter (\<lambda>app. app_creator_id app = userId \<and> app_status app = ''approved'')
                       (t_opportunity_applications st)))"
    using assms(1)
    by (simp only: chats_of_group_def unifiedConversation_project_ids applications_of_rows if_False)
next
  fix conv ch
  assume "ch \<in> set (chats_of_group st userId conv)"
  then show "co_analyst_id (pc_opportunity ch) = u_analyst_id conv"
    unfolding chats_of_group_def by (rule unifiedConversation_fields)
qed

text \<open>
  C5, witness: on the scenario the only chat is that of engagement \<open>E1\<close>;
  the group of \<open>B\<close>, which owns no opportunity, yields none.
\<close>

theorem C5_witness:
  "\<not> unavailable scenario_store OpportunityApplications
   \<and> \<not> unavailable scenario_store Opportunities
   \<and> distinct (map o_id (t_opportunities scenario_store))
   \<and> map pc_project_id (fetchCreatorChats scenario_store ''creator'') = [''E1'']
   \<and> map pc_project_id (chats_of_group scenario_store ''creator''
          (seed_conversation (mk_conversation ''B1'' ''B'' 2 (Some 1))))
       = map app_id
           (filter (\<lambda>app. \<exists>op\<in>set (t_opportunities scenario_store).
                      o_id op = app_opportunity_id app \<and> o_analyst_id op = ''B'')
              (filter (\<lambda>app. app_creator_id app = ''creator'' \<and> app_status app = ''approved'')
                 (t_opportunity_applications scenario_store)))
   \<and> map pc_project_id (chats_of_group scenario_store ''creator''
          (seed_conversation (mk_conversation ''B1'' ''B'' 2 (Some 1)))) = []"
proof -
  have h1: "\<not> unavailable scenario_store OpportunityApplications" by code_simp
  have h2: "\<not> unavailable scenario_store Opportunities" by code_simp
  have h3: "distinct (map o_id (t_opportunities scenario_store))" by code_simp
  have h4: "map pc_project_id (fetchCreatorChats scenario_store ''creator'') = [''E1'']" by code_simp
  have h5: "u_analyst_id (seed_conversation (mk_conversation ''B1'' ''B'' 2 (Some 1))) = ''B''"
    by code_simp
  have h6: "map pc_project_id (chats_of_group scenario_store ''creator''
          (seed_conversation (mk_conversation ''B1'' ''B'' 2 (Some 1)))) = []" by code_simp
  note inst = C5_emission[OF h1 h2 h3, of "''creator''", THEN conjunct2, THEN conjunct1, THEN spec,
      of "seed_conversation (mk_conversation ''B1'' ''B'' 2 (Some 1))"]
  have "map pc_project_id (chats_of_group scenario_store ''creator''
          (seed_conversation (mk_conversation ''B1'' ''B'' 2 (Some 1))))
       = map app_id
           (filter (\<lambda>app. \<exists>op\<in>set (t_opportunities scenario_store).
                      o_id op = app_opportunity_id app \<and> o_analyst_id op = ''B'')
              (filter (\<lambda>app. app_creator_id app = ''creator'' \<and> app_status app = ''approved'')
                 (t_opportunity_applications scenario_store)))"
    using inst unfolding h5 .
  with h1 h2 h3 h4 h6 show ?thesis by (intro conjI)
qed

section \<open>Claim C6\<close>

text \<open>
  C6, as stated, fails. With \<open>get_latest_messages\<close> failing, the function
  returns the list built from the other six operations, each chat without its
  latest message. Its result is a plain list: no path of the function throws
  or returns an error.
\<close>

theorem C6_counterexample:
  "unavailable rpc_down_store GetLatestMessages
   \<and> fetchCreatorChats rpc_down_store ''creator'' = [scenario_chat \<lparr> pc_lastMessage := None \<rparr>]
   \<and> fetchCreatorChats rpc_down_store ''creator'' \<noteq> []"
  by code_simp

text \<open>
  C6, amended: no failure of a bulk operation is surfaced; the function
  returns a list in every case. When the conversations query fails the result
  is the empty list; when the applications or the opportunities query fails
  the result is the empty list; when \<open>get_latest_messages\<close> fails the result
  is the list of the same store with the procedure answering, every
  \<open>lastMessage\<close> removed; when the unread query fails it is the list of the
  same store with the query answering, every \<open>unread_count\<close> set to 0; when
  one of the two identity queries fails it is the list of the store in which
  that query answers with no rows; when both identity queries fail it is the
  list of the same store with both queries answering, the name and the avatar
  of every chat's analyst replaced by those of the sentinel identity.
\<close>

theorem C6_failures_not_surfaced:
  "(unavailable st Conversations \<longrightarrow> fetchCreatorChats st userId = [])
   \<and> (unavailable st OpportunityApplications \<or> unavailable st Opportunities
        \<longrightarrow> fetchCreatorChats st userId = [])
   \<and> (unavailable st GetLatestMessages
        \<longrightarrow> fetchCreatorChats st userId
            = map (\<lambda>ch. ch \<lparr> pc_lastMessage := None \<rparr>)
                (fetchCreatorChats (recover GetLatestMessages st) userId))
   \<and> (unavailable st Messages
        \<longrightarrow> fetchCreatorChats st userId
            = map (\<lambda>ch. ch \<lparr> pc_unread_count := 0 \<rparr>)
                (fetchCreatorChats (recover Messages st) userId))
   \<and> (unavailable st Analysts
        \<longrightarrow> fetchCreatorChats st userId
            = fetchCreatorChats (recover Analysts (st \<lparr> t_analysts := [] \<rparr>)) userId)
   \<and> (unavailable st Profiles
        \<longrightarrow> fetchCreatorChats st userId
            = fetchCreatorChats (recover Profiles (st \<lparr> t_profiles := [] \<rparr>)) userId)
   \<and> (unavailable st Analysts \<and> unavailable st Profiles
        \<longrightarrow> fetchCreatorChats st userId
            = map (\<lambda>ch. ch \<lparr> pc_analyst := (pc_analyst ch)
                     \<lparr> ca_name := ''Analista'', ca_avatar_url := None \<rparr> \<rparr>)
                (fetchCreatorChats (recover Analysts (recover Profiles st)) userId))"
proof (intro conjI impI)
  assume "unavailable st Conversations"
  then show "fetchCreatorChats st userId = []" by (simp add: fetchCreatorChats_eq)
next
  assume "unavailable st OpportunityApplications \<or> unavailable st Opportunities"
  then show "fetchCreatorChats st userId = []" by (rule chats_applications_down)
next
  assume "unavailable st GetLatestMessages"
  then show "fetchCreatorChats st userId
            = map (\<lambda>ch. ch \<lparr> pc_lastMessage := None \<rparr>)
                (fetchCreatorChats (recover GetLatestMessages st) userId)"
    by (rule chats_latest_down)
next
  assume "unavailable st Messages"
  then show "fetchCreatorChats st userId
            = map (\<lambda>ch. ch \<lparr> pc_unread_count := 0 \<rparr>)
                (fetchCreatorChats (recover Messages st) userId)"
    by (rule chats_unread_down)
next
  assume "unavailable st Analysts"
  then show "fetchCreatorChats st userId
            = fetchCreatorChats (recover Analysts (st \<lparr> t_analysts := [] \<rparr>)) userId"
    by (rule chats_analysts_down)
next
  assume "unavailable st Profiles"
  then show "fetchCreatorChats st userId
            = fetchCreatorChats (recover Profiles (st \<lparr> t_profiles := [] \<rparr>)) userId"
    by (rule chats_profiles_down)
next
  assume "unavailable st Analysts \<and> unavailable st Profiles"
  then show "fetchCreatorChats st userId
            = map (\<lambda>ch. ch \<lparr> pc_analyst := (pc_analyst ch)
                     \<lparr> ca_name := ''Analista'', ca_avatar_url := None \<rparr> \<rparr>)
                (fetchCreatorChats (recover Analysts (recover Profiles st)) userId)"
    by (simp add: chats_identity_down)
qed

text \<open>
  C6, witness: the scenario with the conversations, applications and
  opportunities queries failing, with both message operations failing, and
  with both identity queries failing; and the three counterparts of
  \<open>identity_store\<close> with one identity query failing: without \<open>analysts\<close>,
  \<open>A\<close> is named by its profile; without \<open>profiles\<close>, \<open>B\<close> is named by the
  sentinel.
\<close>

theorem C6_witness:
  "unavailable fetch_down_store Conversations
   \<and> (unavailable fetch_down_store OpportunityApplications \<or> unavailable fetch_down_store Opportunities)
   \<and> fetchCreatorChats fetch_down_store ''creator'' = []
   \<and> unavailable messaging_down_store GetLatestMessages
   \<and> unavailable messaging_down_store Messages
   \<and> fetchCreatorChats messaging_down_store ''creator''
       = map (\<lambda>ch. ch \<lparr> pc_lastMessage := None \<rparr>)
           (fetchCreatorChats (recover GetLatestMessages messaging_down_store) ''creator'')
   \<and> fetchCreatorChats messaging_down_store ''creator''
       = map (\<lambda>ch. ch \<lparr> pc_unread_count := 0 \<rparr>)
           (fetchCreatorChats (recover Messages messaging_down_store) ''creator'')
   \<and> fetchCreatorChats messaging_down_store ''creator''
       = [scenario_chat \<lparr> pc_lastMessage := None, pc_unread_count := 0 \<rparr>]
   \<and> unavailable analysts_down_store Analysts
   \<and> fetchCreatorChats analysts_down_store ''creator''
       = fetchCreatorChats (recover Analysts (analysts_down_store \<lparr> t_analysts := [] \<rparr>)) ''creator''
   \<and> map (\<lambda>ch. (pc_project_id ch, ca_name (pc_analyst ch)))
         (fetchCreatorChats analysts_down_store ''creator'')
       = [(''E1'', ''Ana Profile''), (''E2'', ''Bia''), (''E3'', ''Analista'')]
   \<and> unavailable profiles_down_store Profiles
   \<and> fetchCreatorChats profiles_down_store ''creator''
       = fetchCreatorChats (recover Profiles (profiles_down_store \<lparr> t_profiles := [] \<rparr>)) ''creator''
   \<and> map (\<lambda>ch. (pc_project_id ch, ca_name (pc_analyst ch)))
         (fetchCreatorChats profiles_down_store ''creator'')
       = [(''E1'', ''Ana''), (''E2'', ''Analista''), (''E3'', ''Analista'')]
   \<and> unavailable identity_down_store Analysts \<and> unavailable identity_down_store Profiles
   \<and> fetchCreatorChats identity_down_store ''creator''
       = map (\<lambda>ch. ch \<lparr> pc_analyst := (pc_analyst ch)
                \<lparr> ca_name := ''Analista'', ca_avatar_url := None \<rparr> \<rparr>)
           (fetchCreatorChats (recover Analysts (recover Profiles identity_down_store)) ''creator'')
   \<and> fetchCreatorChats (recover Analysts (recover Profiles identity_down_store)) ''creator''
       = [scenario_chat]
   \<and> fetchCreatorChats identity_down_store ''creator''
       = [scenario_chat \<lparr> pc_analyst := \<lparr> ca_name = ''Analista'', ca_company = ''Acme'',
                                          ca_avatar_url = None \<rparr> \<rparr>]"
proof -
  have f: "unavailable fetch_down_store Conversations"
    "unavailable fetch_down_store OpportunityApplications \<or> unavailable fetch_down_store Opportunities"
    by code_simp+
  have m: "unavailable messaging_down_store GetLatestMessages" "unavailable messaging_down_store Messages"
    by code_simp+
  have i: "unavailable identity_down_store Analysts" "unavailable identity_down_store Profiles"
    by code_simp+
  have s: "unavailable analysts_down_store Analysts" "unavailable profiles_down_store Profiles"
    by code_simp+
  have e: "fetchCreatorChats messaging_down_store ''creator''
       = [scenario_chat \<lparr> pc_lastMessage := None, pc_unread_count := 0 \<rparr>]"
    "map (\<lambda>ch. (pc_project_id ch, ca_name (pc_analyst ch)))
         (fetchCreatorChats analysts_down_store ''creator'')
       = [(''E1'', ''Ana Profile''), (''E2'', ''Bia''), (''E3'', ''Analista'')]"
    "map (\<lambda>ch. (pc_project_id ch, ca_name (pc_analyst ch)))
         (fetchCreatorChats profiles_down_store ''creator'')
       = [(''E1'', ''Ana''), (''E2'', ''Analista''), (''E3'', ''Analista'')]"
    "fetchCreatorChats (recover Analysts (recover Profiles identity_down_store)) ''creator''
       = [scenario_chat]"
    "fetchCreatorChats identity_down_store ''creator''
       = [scenario_chat \<lparr> pc_analyst := \<lparr> ca_name = ''Analista'', ca_company = ''Acme'',
                                          ca_avatar_url = None \<rparr> \<rparr>]"
    by code_simp+
  note a = C6_failures_not_surfaced[of fetch_down_store "''creator''"]
  note b = C6_failures_not_surfaced[of messaging_down_store "''creator''"]
  note c = C6_failures_not_surfaced[of identity_down_store "''creator''"]
  note d = C6_failures_not_surfaced[of analysts_down_store "''creator''"]
  note g = C6_failures_not_surfaced[of profiles_down_store "''creator''"]
  from a f have 1: "fetchCreatorChats fetch_down_store ''creator'' = []" by blast
  from b m have 2: "fetchCreatorChats messaging_down_store ''creator''
       = map (\<lambda>ch. ch \<lparr> pc_lastMessage := None \<rparr>)
           (fetchCreatorChats (recover GetLatestMessages messaging_down_store) ''creator'')"
    and 3: "fetchCreatorChats messaging_down_store ''creator''
       = map (\<lambda>ch. ch \<lparr> pc_unread_count := 0 \<rparr>)
           (fetchCreatorChats (recover Messages messaging_down_store) ''creator'')"
    by blast+
  from c i have 4: "fetchCreatorChats identity_down_store ''creator''
       = map (\<lambda>ch. ch \<lparr> pc_analyst := (pc_analyst ch)
                \<lparr> ca_name := ''Analista'', ca_avatar_url := None \<rparr> \<rparr>)
           (fetchCreatorChats (recover Analysts (recover Profiles identity_down_store)) ''creator'')"
    by blast
  from d s(1) have 5: "fetchCreatorChats analysts_down_store ''creator''
       = fetchCreatorChats (recover Analysts (analysts_down_store \<lparr> t_analysts := [] \<rparr>)) ''creator''"
    by blast
  from g s(2) have 6: "fetchCreatorChats profiles_down_store ''creator''
       = fetchCreatorChats (recover Profiles (profiles_down_store \<lparr> t_profiles := [] \<rparr>)) ''creator''"
    by blast
  from f m i s e 1 2 3 4 5 6 show ?thesis by (intro conjI)
qed

section \<open>Claim C7\<close>

text \<open>
  C7, as stated, fails on its tie-break. In \<open>order_store\<close> the groups of
  \<open>A\<close> and \<open>B\<close> have the same canonical \<open>last_message_at\<close> and the store
  returns the conversation of \<open>B\<close> first; the chat of \<open>B\<close> comes first in the
  result, although \<open>A\<close> is the smaller counterpart id. The function never
  sorts its result: the groups come in the order in which the store's answer
  first shows their analysts. So in \<open>null_first_store\<close>, where the store's
  answer starts with the undated conversation of \<open>A\<close>, the chat of \<open>A\<close>, whose
  canonical date is 5, precedes the chat of \<open>B\<close>, whose date is 10.
\<close>

theorem C7_counterexample:
  "map (\<lambda>ch. (co_analyst_id (pc_opportunity ch), pc_last_message_at ch))
       (fetchCreatorChats order_store ''creator'')
     = [(''B'', Some 10), (''A'', Some 10)]
   \<and> (''A'' :: string) < ''B''
   \<and> map c_id (conversationData null_first_store ''creator'') = [''A0'', ''B1'', ''A1'']
   \<and> map (\<lambda>ch. (co_analyst_id (pc_opportunity ch), pc_last_message_at ch))
       (fetchCreatorChats null_first_store ''creator'')
     = [(''A'', Some 5), (''B'', Some 10)]"
  by code_simp

text \<open>
  C7, amended: when every conversation of the actor has a \<open>last_message_at\<close>,
  the result is ordered by the group's canonical \<open>last_message_at\<close>,
  descending. The result is the concatenation of the chats of the groups, and
  the groups follow the order in which their analysts first occur in the
  store's answer, so groups with equal dates keep the store's order.
\<close>

theorem C7_output_order:
  assumes "\<forall>c\<in>set (t_conversations st). c_creator_id c = userId \<longrightarrow> c_last_message_at c \<noteq> None"
  shows "sorted_wrt (\<lambda>a b. pc_last_message_at b \<le> pc_last_message_at a) (fetchCreatorChats st userId)
       \<and> fetchCreatorChats st userId
           = concat (map (chats_of_group st userId) (map snd (analystConversations (groups st userId))))
       \<and> map fst (analystConversations (groups st userId))
           = rev (remdups (rev (map c_analyst_id (conversationData st userId))))"
proof (intro conjI)
  have "sorted_wrt (\<lambda>u v. u_last_message_at v \<le> u_last_message_at u)
          (map snd (analystConversations (groups st userId)))"
    unfolding groups_def using assms by (intro groups_sorted conversationData_ordered conversationData_sorted)
  moreover have "\<And>c ch. ch \<in> set (chats_of_group st userId c) \<Longrightarrow> pc_last_message_at ch = u_last_message_at c"
    unfolding chats_of_group_def by (rule unifiedConversation_fields)
  ultimately show "sorted_wrt (\<lambda>a b. pc_last_message_at b \<le> pc_last_message_at a)
      (fetchCreatorChats st userId)"
    unfolding fetchCreatorChats_concat
    using concat_sorted[of "chats_of_group st userId" pc_last_message_at u_last_message_at]
    by blast
next
  show "fetchCreatorChats st userId
           = concat (map (chats_of_group st userId) (map snd (analystConversations (groups st userId))))"
    by (rule fetchCreatorChats_concat)
next
  show "map fst (analystConversations (groups st userId))
           = rev (remdups (rev (map c_analyst_id (conversationData st userId))))"
    unfolding groups_def using grouping_keys[of "conversationData st userId"]
    by (simp add: allAnalystIds_first_sighting)
qed

text \<open>
  C7, witness: two groups with the dates 10 and 3.
\<close>

theorem C7_witness:
  "map c_last_message_at (t_conversations desc_store) = [Some 3, Some 10]
   \<and> map (\<lambda>ch. (co_analyst_id (pc_opportunity ch), pc_last_message_at ch))
       (fetchCreatorChats desc_store ''creator'')
       = [(''A'', Some 10), (''B'', Some 3)]
   \<and> sorted_wrt (\<lambda>a b. pc_last_message_at b \<le> pc_last_message_at a) (fetchCreatorChats desc_store ''creator'')"
proof -
  have h: "\<forall>c\<in>set (t_conversations desc_store). c_creator_id c = ''creator'' \<longrightarrow> c_last_message_at c \<noteq> None"
    by code_simp
  have e: "map (\<lambda>ch. (co_analyst_id (pc_opportunity ch), pc_last_message_at ch))
       (fetchCreatorChats desc_store ''creator'')
       = [(''A'', Some 10), (''B'', Some 3)]"
    by code_simp
  have v: "map c_last_message_at (t_conversations desc_store) = [Some 3, Some 10]"
    by code_simp
  from C7_output_order[OF h] v e show ?thesis by blast
qed

section \<open>Claim C8\<close>

text \<open>
  C8: for every analyst id among the fetched conversations, the resolved
  identity is that of the first row of \<open>analysts\<close> with this id when there is
  one, otherwise that of the first row of \<open>profiles\<close> with this id when
  there is one, otherwise the sentinel named \<open>Analista\<close> (\<open>spec_identity\<close>),
  and the map has an entry for every such id. This identity is the one every
  returned chat shows: its analyst's name and avatar are those resolved for
  the analyst of the chat's group. An id found in neither source aborts
  nothing: the result holds, group after group, one chat for each engagement
  of the group, each with the name and the avatar resolved for the group's
  analyst. The two identity queries are answered by the store.
\<close>

theorem C8_identity_resolution:
  assumes "\<not> unavailable st Analysts" and "\<not> unavailable st Profiles"
  shows "(\<forall>aid\<in>c_analyst_id ` set (conversationData st userId).
            analystsMap_of st userId aid = Some (spec_identity st aid))
       \<and> (\<forall>ch\<in>set (fetchCreatorChats st userId).
            ca_name (pc_analyst ch) = ai_name (spec_identity st (co_analyst_id (pc_opportunity ch)))
            \<and> ca_avatar_url (pc_analyst ch)
                = ai_avatar_url (spec_identity st (co_analyst_id (pc_opportunity ch))))
       \<and> map (\<lambda>ch. (pc_project_id ch, ca_name (pc_analyst ch), ca_avatar_url (pc_analyst ch)))
             (fetchCreatorChats st userId)
           = concat (map (\<lambda>conv.
                 map (\<lambda>p. (pr_id p, ai_name (spec_identity st (u_analyst_id conv)),
                            ai_avatar_url (spec_identity st (u_analyst_id conv))))
                   (formattedProjects (applications_of st userId) (opportunitiesMap_of st userId) conv))
               (map snd (analystConversations (groups st userId))))"
proof (intro conjI ballI)
  fix aid assume "aid \<in> c_analyst_id ` set (conversationData st userId)"
  with assms show "analystsMap_of st userId aid = Some (spec_identity st aid)"
    by (rule analystsMap_of_identity)
next
  fix ch assume "ch \<in> set (fetchCreatorChats st userId)"
  then obtain conv where conv: "conv \<in> set (map snd (analystConversations (groups st userId)))"
    and ch: "ch \<in> set (chats_of_group st userId conv)"
    by (rule fetchCreatorChats_member)
  note f = unifiedConversation_fields(5,8,9)[OF ch[unfolded chats_of_group_def]]
  from f show "ca_name (pc_analyst ch) = ai_name (spec_identity st (co_analyst_id (pc_opportunity ch)))"
    by (simp only: group_identity[OF assms conv])
  from f show "ca_avatar_url (pc_analyst ch)
      = ai_avatar_url (spec_identity st (co_analyst_id (pc_opportunity ch)))"
    by (simp only: group_identity[OF assms conv])
next
  have per_group: "map (\<lambda>ch. (pc_project_id ch, ca_name (pc_analyst ch), ca_avatar_url (pc_analyst ch)))
          (chats_of_group st userId conv)
      = map (\<lambda>p. (pr_id p, ai_name (spec_identity st (u_analyst_id conv)),
                   ai_avatar_url (spec_identity st (u_analyst_id conv))))
          (formattedProjects (applications_of st userId) (opportunitiesMap_of st userId) conv)"
    if "conv \<in> set (map snd (analystConversations (groups st userId)))" for conv
    unfolding chats_of_group_def unifiedConversation_identities group_identity[OF assms that]
    by (rule refl)
  show "map (\<lambda>ch. (pc_project_id ch, ca_name (pc_analyst ch), ca_avatar_url (pc_analyst ch)))
             (fetchCreatorChats st userId)
           = concat (map (\<lambda>conv.
                 map (\<lambda>p. (pr_id p, ai_name (spec_identity st (u_analyst_id conv)),
                            ai_avatar_url (spec_identity st (u_analyst_id conv))))
                   (formattedProjects (applications_of st userId) (opportunitiesMap_of st userId) conv))
               (map snd (analystConversations (groups st userId))))"
    unfolding fetchCreatorChats_concat map_concat map_map comp_def
  proof (intro arg_cong[where f = concat] map_cong refl)
    fix x assume "x \<in> set (analystConversations (groups st userId))"
    then have "snd x \<in> set (map snd (analystConversations (groups st userId)))" by simp
    then show "map (\<lambda>ch. (pc_project_id ch, ca_name (pc_analyst ch), ca_avatar_url (pc_analyst ch)))
          (chats_of_group st userId (snd x))
      = map (\<lambda>p. (pr_id p, ai_name (spec_identity st (u_analyst_id (snd x))),
                   ai_avatar_url (spec_identity st (u_analyst_id (snd x)))))
          (formattedProjects (applications_of st userId) (opportunitiesMap_of st userId) (snd x))"
      by (rule per_group)
  qed
qed

text \<open>
  C8, witness: in \<open>identity_store\<close> counterpart \<open>A\<close> is in both sources and
  shows its \<open>analysts\<close> row, \<open>B\<close> is only in \<open>profiles\<close>, and \<open>C\<close> is in
  neither and shows the sentinel; the three chats are returned.
\<close>

theorem C8_witness:
  "\<not> unavailable identity_store Analysts \<and> \<not> unavailable identity_store Profiles
   \<and> c_analyst_id ` set (conversationData identity_store ''creator'') = {''A'', ''B'', ''C''}
   \<and> analystsMap_of identity_store ''creator'' ''A''
       = Some \<lparr> ai_name = ''Ana'', ai_email = ''ana@example.org'', ai_avatar_url = Some ''ana.png'' \<rparr>
   \<and> analystsMap_of identity_store ''creator'' ''B''
       = Some \<lparr> ai_name = ''Bia'', ai_email = ''bia@example.org'', ai_avatar_url = Some ''bia.png'' \<rparr>
   \<and> analystsMap_of identity_store ''creator'' ''C''
       = Some \<lparr> ai_name = ''Analista'', ai_email = [], ai_avatar_url = None \<rparr>
   \<and> map (\<lambda>ch. (pc_project_id ch, ca_name (pc_analyst ch), ca_avatar_url (pc_analyst ch)))
         (fetchCreatorChats identity_store ''creator'')
       = [(''E1'', ''Ana'', Some ''ana.png''), (''E2'', ''Bia'', Some ''bia.png''),
          (''E3'', ''Analista'', None)]
   \<and> list_all (\<lambda>ch.
          ca_name (pc_analyst ch) = ai_name (spec_identity identity_store (co_analyst_id (pc_opportunity ch)))
          \<and> ca_avatar_url (pc_analyst ch)
              = ai_avatar_url (spec_identity identity_store (co_analyst_id (pc_opportunity ch))))
        (fetchCreatorChats identity_store ''creator'')"
proof -
  have h1: "\<not> unavailable identity_store Analysts" by code_simp
  have h2: "\<not> unavailable identity_store Profiles" by code_simp
  have h3: "c_analyst_id ` set (conversationData identity_store ''creator'') = {''A'', ''B'', ''C''}"
    by code_simp
  note inst = C8_identity_resolution[OF h1 h2, of "''creator''"]
  have ids: "spec_identity identity_store ''A''
       = \<lparr> ai_name = ''Ana'', ai_email = ''ana@example.org'', ai_avatar_url = Some ''ana.png'' \<rparr>"
    "spec_identity identity_store ''B''
       = \<lparr> ai_name = ''Bia'', ai_email = ''bia@example.org'', ai_avatar_url = Some ''bia.png'' \<rparr>"
    "spec_identity identity_store ''C''
       = \<lparr> ai_name = ''Analista'', ai_email = [], ai_avatar_url = None \<rparr>"
    by code_simp+
  from inst[THEN conjunct1] h3 have m: "analystsMap_of identity_store ''creator'' ''A''
       = Some (spec_identity identity_store ''A'')"
    "analystsMap_of identity_store ''creator'' ''B'' = Some (spec_identity identity_store ''B'')"
    "analystsMap_of identity_store ''creator'' ''C'' = Some (spec_identity identity_store ''C'')"
    by simp_all
  have rhs: "concat (map (\<lambda>conv.
                 map (\<lambda>p. (pr_id p, ai_name (spec_identity identity_store (u_analyst_id conv)),
                            ai_avatar_url (spec_identity identity_store (u_analyst_id conv))))
                   (formattedProjects (applications_of identity_store ''creator'')
                      (opportunitiesMap_of identity_store ''creator'') conv))
               (map snd (analystConversations (groups identity_store ''creator''))))
       = [(''E1'', ''Ana'', Some ''ana.png''), (''E2'', ''Bia'', Some ''bia.png''),
          (''E3'', ''Analista'', None)]"
    by code_simp
  have e: "map (\<lambda>ch. (pc_project_id ch, ca_name (pc_analyst ch), ca_avatar_url (pc_analyst ch)))
         (fetchCreatorChats identity_store ''creator'')
       = [(''E1'', ''Ana'', Some ''ana.png''), (''E2'', ''Bia'', Some ''bia.png''),
          (''E3'', ''Analista'', None)]"
    using inst[THEN conjunct2, THEN conjunct2] unfolding rhs .
  have l: "list_all (\<lambda>ch.
          ca_name (pc_analyst ch) = ai_name (spec_identity identity_store (co_analyst_id (pc_opportunity ch)))
          \<and> ca_avatar_url (pc_analyst ch)
              = ai_avatar_url (spec_identity identity_store (co_analyst_id (pc_opportunity ch))))
        (fetchCreatorChats identity_store ''creator'')"
    using inst[THEN conjunct2, THEN conjunct1] by (simp only: list_all_iff)
  from h1 h2 h3 m[unfolded ids] e l show ?thesis by (intro conjI)
qed

section \<open>Claim C9\<close>

text \<open>
  C9: in the loop, a conversation without \<open>last_message_at\<close> leaves the
  canonical data of an existing group unchanged; a conversation with one
  replaces a canonical conversation that has none: the group's entry then
  holds the id, \<open>last_message_at\<close>, custom title and tags of that
  conversation, its other fields unchanged. For a chat whose group has only
  conversations without \<open>last_message_at\<close>, the canonical id is that of the
  first conversation of the group in the store's answer; and for a chat whose
  group has a conversation with a \<open>last_message_at\<close>, the canonical id and
  \<open>last_message_at\<close> are those of a conversation of the group that has one.
\<close>

theorem C9_null_last_message_at:
  "(map_of (analystConversations s) (c_analyst_id conv) = Some existing
      \<and> c_last_message_at conv = None
      \<longrightarrow> analystConversations (group_conv s conv) = analystConversations s)
   \<and> (map_of (analystConversations s) (c_analyst_id conv) = Some existing
      \<and> u_last_message_at existing = None \<and> c_last_message_at conv \<noteq> None
      \<longrightarrow> map_of (analystConversations (group_conv s conv)) (c_analyst_id conv)
            = Some \<lparr> u_id = c_id conv, u_analyst_id = u_analyst_id existing,
                     u_creator_id = u_creator_id existing, u_created_at = u_created_at existing,
                     u_last_message_at = c_last_message_at conv,
                     u_custom_title = c_custom_title conv, u_tags = c_tags conv \<rparr>)
   \<and> (ch \<in> set (fetchCreatorChats st userId)
      \<and> (\<forall>c\<in>set (group_of (co_analyst_id (pc_opportunity ch)) (conversationData st userId)).
             c_last_message_at c = None)
      \<longrightarrow> (\<exists>c rest.
             group_of (co_analyst_id (pc_opportunity ch)) (conversationData st userId) = c # rest
             \<and> pc_conversation_id ch = c_id c))
   \<and> (ch \<in> set (fetchCreatorChats st userId)
      \<and> (\<exists>c\<in>set (group_of (co_analyst_id (pc_opportunity ch)) (conversationData st userId)).
             c_last_message_at c \<noteq> None)
      \<longrightarrow> (\<exists>c\<in>set (group_of (co_analyst_id (pc_opportunity ch)) (conversationData st userId)).
             c_last_message_at c \<noteq> None \<and> pc_conversation_id ch = c_id c
             \<and> pc_last_message_at ch = c_last_message_at c))"
proof (intro conjI impI)
  assume "map_of (analystConversations s) (c_analyst_id conv) = Some existing
      \<and> c_last_message_at conv = None"
  then show "analystConversations (group_conv s conv) = analystConversations s"
    by (simp add: group_conv_fields)
next
  assume a: "map_of (analystConversations s) (c_analyst_id conv) = Some existing
      \<and> u_last_message_at existing = None \<and> c_last_message_at conv \<noteq> None"
  then have "more_recent (c_last_message_at conv) (u_last_message_at existing)"
    by (cases "c_last_message_at conv") simp_all
  with a have "map_of (analystConversations (group_conv s conv)) (c_analyst_id conv)
            = Some (replace_canonical existing conv)"
    by (simp add: group_conv_fields update_conv')
  then show "map_of (analystConversations (group_conv s conv)) (c_analyst_id conv)
            = Some \<lparr> u_id = c_id conv, u_analyst_id = u_analyst_id existing,
                     u_creator_id = u_creator_id existing, u_created_at = u_created_at existing,
                     u_last_message_at = c_last_message_at conv,
                     u_custom_title = c_custom_title conv, u_tags = c_tags conv \<rparr>"
    by (simp add: replace_canonical_def)
next
  assume a: "ch \<in> set (fetchCreatorChats st userId)
      \<and> (\<forall>c\<in>set (group_of (co_analyst_id (pc_opportunity ch)) (conversationData st userId)).
             c_last_message_at c = None)"
  then obtain conv' where conv: "conv' \<in> set (map snd (analystConversations (groups st userId)))"
    and ch: "ch \<in> set (chats_of_group st userId conv')"
    by (auto elim: fetchCreatorChats_member)
  from conv have can: "is_canonical (group_of (u_analyst_id conv') (conversationData st userId)) conv'"
    unfolding groups_def by (rule group_member_canonical[OF conversationData_ordered])
  from ch have fields: "pc_conversation_id ch = u_id conv'"
    "co_analyst_id (pc_opportunity ch) = u_analyst_id conv'"
    unfolding chats_of_group_def by (rule unifiedConversation_fields)+
  from canonical_all_null[OF can] a fields
  show "\<exists>c rest.
             group_of (co_analyst_id (pc_opportunity ch)) (conversationData st userId) = c # rest
             \<and> pc_conversation_id ch = c_id c"
    by simp
next
  assume a: "ch \<in> set (fetchCreatorChats st userId)
      \<and> (\<exists>c\<in>set (group_of (co_analyst_id (pc_opportunity ch)) (conversationData st userId)).
             c_last_message_at c \<noteq> None)"
  then obtain conv' where conv: "conv' \<in> set (map snd (analystConversations (groups st userId)))"
    and ch: "ch \<in> set (chats_of_group st userId conv')"
    by (auto elim: fetchCreatorChats_member)
  from conv have can: "is_canonical (group_of (u_analyst_id conv') (conversationData st userId)) conv'"
    unfolding groups_def by (rule group_member_canonical[OF conversationData_ordered])
  from ch have fields: "pc_conversation_id ch = u_id conv'"
    "pc_last_message_at ch = u_last_message_at conv'"
    "co_analyst_id (pc_opportunity ch) = u_analyst_id conv'"
    unfolding chats_of_group_def by (rule unifiedConversation_fields)+
  from a have "\<exists>c\<in>set (group_of (u_analyst_id conv') (conversationData st userId)).
      c_last_message_at c \<noteq> None"
    unfolding fields by (rule conjunct2)
  from canonical_some_dated[OF can this]
  show "\<exists>c\<in>set (group_of (co_analyst_id (pc_opportunity ch)) (conversationData st userId)).
             c_last_message_at c \<noteq> None \<and> pc_conversation_id ch = c_id c
             \<and> pc_last_message_at ch = c_last_message_at c"
    unfolding fields .
qed

text \<open>
  C9, witness: a group seeded by \<open>N1\<close>, which has no date, extended by
  \<open>N2\<close> without a date and by \<open>A3\<close> with one; the chat of the store whose
  only conversations are \<open>N1\<close> and \<open>N2\<close>; and the chat of \<open>A\<close> in
  \<open>null_first_store\<close>, whose group is the undated \<open>A0\<close> followed by \<open>A1\<close>.
\<close>

theorem C9_witness:
  "map_of (analystConversations null_grouping) (c_analyst_id (mk_conversation ''N2'' ''A'' 2 None))
     = Some (seed_conversation (mk_conversation ''N1'' ''A'' 1 None))
   \<and> c_last_message_at (mk_conversation ''N2'' ''A'' 2 None) = None
   \<and> analystConversations (group_conv null_grouping (mk_conversation ''N2'' ''A'' 2 None))
       = analystConversations null_grouping
   \<and> map_of (analystConversations null_grouping) (c_analyst_id (mk_conversation ''A3'' ''A'' 3 (Some 7)))
     = Some (seed_conversation (mk_conversation ''N1'' ''A'' 1 None))
   \<and> u_last_message_at (seed_conversation (mk_conversation ''N1'' ''A'' 1 None)) = None
   \<and> c_last_message_at (mk_conversation ''A3'' ''A'' 3 (Some 7)) \<noteq> None
   \<and> map_of (analystConversations (group_conv null_grouping (mk_conversation ''A3'' ''A'' 3 (Some 7))))
        ''A''
       = Some \<lparr> u_id = ''A3'', u_analyst_id = ''A'', u_creator_id = ''creator'', u_created_at = 1,
                u_last_message_at = Some 7, u_custom_title = None, u_tags = None \<rparr>
   \<and> null_chat \<in> set (fetchCreatorChats null_store ''creator'')
   \<and> map c_last_message_at
         (group_of (co_analyst_id (pc_opportunity null_chat)) (conversationData null_store ''creator''))
       = [None, None]
   \<and> (\<exists>c rest.
         group_of (co_analyst_id (pc_opportunity null_chat)) (conversationData null_store ''creator'') = c # rest
         \<and> pc_conversation_id null_chat = c_id c)
   \<and> pc_conversation_id null_chat = ''N1''
   \<and> map (\<lambda>c. (c_id c, c_last_message_at c)) (group_of ''A'' (conversationData null_first_store ''creator''))
       = [(''A0'', None), (''A1'', Some 5)]
   \<and> (\<exists>ch\<in>set (fetchCreatorChats null_first_store ''creator'').
         co_analyst_id (pc_opportunity ch) = ''A''
         \<and> pc_conversation_id ch = ''A1'' \<and> pc_last_message_at ch = Some 5
         \<and> (\<exists>c\<in>set (group_of (co_analyst_id (pc_opportunity ch))
                         (conversationData null_first_store ''creator'')).
               c_last_message_at c \<noteq> None \<and> pc_conversation_id ch = c_id c
               \<and> pc_last_message_at ch = c_last_message_at c))"
proof -
  let ?n1 = "mk_conversation ''N1'' ''A'' 1 None"
  let ?n2 = "mk_conversation ''N2'' ''A'' 2 None"
  let ?a3 = "mk_conversation ''A3'' ''A'' 3 (Some 7)"
  have h1: "map_of (analystConversations null_grouping) (c_analyst_id ?n2) = Some (seed_conversation ?n1)"
    by code_simp
  have h2: "c_last_message_at ?n2 = None" by code_simp
  have h3: "map_of (analystConversations null_grouping) (c_analyst_id ?a3) = Some (seed_conversation ?n1)"
    by code_simp
  have h4: "u_last_message_at (seed_conversation ?n1) = None" by code_simp
  have h5: "c_last_message_at ?a3 \<noteq> None" by code_simp
  have h6: "null_chat \<in> set (fetchCreatorChats null_store ''creator'')" by code_simp
  have h7: "\<forall>c\<in>set (group_of (co_analyst_id (pc_opportunity null_chat))
                      (conversationData null_store ''creator'')). c_last_message_at c = None"
    by code_simp
  have h8: "map c_last_message_at
         (group_of (co_analyst_id (pc_opportunity null_chat)) (conversationData null_store ''creator''))
       = [None, None]"
    "pc_conversation_id null_chat = ''N1''"
    "map (\<lambda>c. (c_id c, c_last_message_at c)) (group_of ''A'' (conversationData null_first_store ''creator''))
       = [(''A0'', None), (''A1'', Some 5)]"
    by code_simp+
  note a = C9_null_last_message_at[of null_grouping ?n2 "seed_conversation ?n1" null_chat null_store "''creator''"]
  note b = C9_null_last_message_at[of null_grouping ?a3 "seed_conversation ?n1" null_chat null_store "''creator''"]
  from a h1 h2 have 1: "analystConversations (group_conv null_grouping ?n2)
       = analystConversations null_grouping"
    by blast
  from b h3 h4 h5 have "map_of (analystConversations (group_conv null_grouping ?a3)) (c_analyst_id ?a3)
       = Some \<lparr> u_id = c_id ?a3, u_analyst_id = u_analyst_id (seed_conversation ?n1),
                u_creator_id = u_creator_id (seed_conversation ?n1),
                u_created_at = u_created_at (seed_conversation ?n1),
                u_last_message_at = c_last_message_at ?a3,
                u_custom_title = c_custom_title ?a3, u_tags = c_tags ?a3 \<rparr>"
    by blast
  then have 2: "map_of (analystConversations (group_conv null_grouping ?a3)) ''A''
       = Some \<lparr> u_id = ''A3'', u_analyst_id = ''A'', u_creator_id = ''creator'', u_created_at = 1,
                u_last_message_at = Some 7, u_custom_title = None, u_tags = None \<rparr>"
    by (simp add: mk_conversation_def seed_conversation_def)
  from a h6 h7 have 3: "\<exists>c rest.
         group_of (co_analyst_id (pc_opportunity null_chat)) (conversationData null_store ''creator'') = c # rest
         \<and> pc_conversation_id null_chat = c_id c"
    by blast
  obtain ch where ch: "ch \<in> set (fetchCreatorChats null_first_store ''creator'')"
    "co_analyst_id (pc_opportunity ch) = ''A''"
    "pc_conversation_id ch = ''A1''" "pc_last_message_at ch = Some 5"
  proof -
    have "\<exists>ch\<in>set (fetchCreatorChats null_first_store ''creator'').
         co_analyst_id (pc_opportunity ch) = ''A''
         \<and> pc_conversation_id ch = ''A1'' \<and> pc_last_message_at ch = Some 5"
      by code_simp
    then show ?thesis using that by blast
  qed
  have "\<exists>c\<in>set (group_of (co_analyst_id (pc_opportunity ch)) (conversationData null_first_store ''creator'')).
      c_last_message_at c \<noteq> None"
    unfolding ch(2) by code_simp
  with C9_null_last_message_at[of null_grouping ?n2 "seed_conversation ?n1" ch null_first_store "''creator''"]
    ch(1)
  have "\<exists>c\<in>set (group_of (co_analyst_id (pc_opportunity ch))
                         (conversationData null_first_store ''creator'')).
               c_last_message_at c \<noteq> None \<and> pc_conversation_id ch = c_id c
               \<and> pc_last_message_at ch = c_last_message_at c"
    by blast
  with ch have 4: "\<exists>ch\<in>set (fetchCreatorChats null_first_store ''creator'').
         co_analyst_id (pc_opportunity ch) = ''A''
         \<and> pc_conversation_id ch = ''A1'' \<and> pc_last_message_at ch = Some 5
         \<and> (\<exists>c\<in>set (group_of (co_analyst_id (pc_opportunity ch))
                         (conversationData null_first_store ''creator'')).
               c_last_message_at c \<noteq> None \<and> pc_conversation_id ch = c_id c
               \<and> pc_last_message_at ch = c_last_message_at c)"
    by blast
  from h1 h2 1 h3 h4 h5 2 h6 h8(1) 3 h8(2,3) 4 show ?thesis by (intro conjI)
qed

section \<open>Claim C10\<close>

text \<open>
  C10: application ids being unique (the primary key), no two chats of the
  result have the same \<open>project_id\<close>, and the result has at most as many
  chats as the actor has approved applications: an approved application
  yields at most one chat in the whole result, although every group scans all
  applications.
\<close>

theorem C10_no_duplicate_engagement:
  assumes "distinct (map app_id (t_opportunity_applications st))"
  shows "distinct (map pc_project_id (fetchCreatorChats st userId))
       \<and> length (fetchCreatorChats st userId)
           \<le> length (filter (\<lambda>app. app_creator_id app = userId \<and> app_status app = ''approved'')
                        (t_opportunity_applications st))"
proof -
  let ?apps = "or_empty (applications_of st userId)"
  let ?om = "opportunitiesMap_of st userId"
  let ?convs = "map snd (analystConversations (groups st userId))"
  let ?P = "\<lambda>conv app. format_project ?om conv app \<noteq> None"
  let ?out = "map pc_project_id (fetchCreatorChats st userId)"
  have apps: "distinct (map app_id ?apps)"
    using assms by (simp add: applications_of_rows distinct_map_filter)
  have keys: "distinct (map u_analyst_id ?convs)"
    unfolding groups_def group_analyst_ids by (rule analystConversations_distinct)
  have same: "\<And>c c' a. ?P c a \<Longrightarrow> ?P c' a \<Longrightarrow> u_analyst_id c = u_analyst_id c'"
    unfolding format_project_Some by auto
  have "?out = concat (map (\<lambda>conv. map pc_project_id (chats_of_group st userId conv)) ?convs)"
    by (simp only: fetchCreatorChats_concat map_concat map_map comp_def)
  also have "\<dots> = concat (map (\<lambda>conv. map app_id (filter (?P conv) ?apps)) ?convs)"
    by (simp only: chats_of_group_def unifiedConversation_project_ids)
  finally have out: "?out = concat (map (\<lambda>conv. map app_id (filter (?P conv) ?apps)) ?convs)" .
  have dist: "distinct ?out"
    unfolding out
    using distinct_concat_filter[of app_id ?apps ?P u_analyst_id ?convs, OF apps same keys] .
  have "set ?out \<subseteq> set (map app_id ?apps)"
    unfolding out by auto
  then have "card (set ?out) \<le> card (set (map app_id ?apps))"
    by (intro card_mono) simp_all
  with dist have "length ?out \<le> length (map app_id ?apps)"
    using distinct_card[OF dist] card_length[of "map app_id ?apps"] by linarith
  moreover have "length ?apps
      \<le> length (filter (\<lambda>app. app_creator_id app = userId \<and> app_status app = ''approved'')
                   (t_opportunity_applications st))"
    by (simp add: applications_of_rows)
  ultimately show ?thesis using dist by simp
qed

text \<open>
  C10, witness: two counterparts with one engagement each.
\<close>

theorem C10_witness:
  "distinct (map app_id (t_opportunity_applications order_store))
   \<and> map pc_project_id (fetchCreatorChats order_store ''creator'') = [''E2'', ''E1'']
   \<and> distinct (map pc_project_id (fetchCreatorChats order_store ''creator''))
   \<and> length (fetchCreatorChats order_store ''creator'')
        \<le> length (filter (\<lambda>app. app_creator_id app = ''creator'' \<and> app_status app = ''approved'')
                     (t_opportunity_applications order_store))"
proof -
  have h: "distinct (map app_id (t_opportunity_applications order_store))" by code_simp
  have e: "map pc_project_id (fetchCreatorChats order_store ''creator'') = [''E2'', ''E1'']"
    by code_simp
  from C10_no_duplicate_engagement[OF h, of "''creator''"] h e show ?thesis by blast
qed

end
